theory Spec2Isabelle
  imports Complex_Main "HOL-Library.Word"
begin

text \<open>
  A model of the core of the ISMIP6 viewer: the shuffle codec of the codec pipeline
  (\<^verbatim>\<open>utils/codecs.ts\<close>), the CF time decoder (\<^verbatim>\<open>utils/cftime.ts\<close>), and hierarchy
  discovery, the colour range and the state machine of the store
  (\<^verbatim>\<open>stores/viewerStore.ts\<close>). Each function of the source is a function here with the
  same name; a function that throws returns a sum, and a value that can be \<^verbatim>\<open>null\<close>,
  \<^verbatim>\<open>undefined\<close> or \<^verbatim>\<open>NaN\<close> is an option. Console output is left out.
\<close>

section \<open>Codec pipeline: the element shuffle codec\<close>

text \<open>
  \<^verbatim>\<open>ShuffleCodec\<close> works on \<^verbatim>\<open>Uint8Array\<close> buffers: lists of bytes here.
  A fresh \<^verbatim>\<open>new Uint8Array(n)\<close> is zero-filled, a write outside the array is
  dropped (as \<open>xs[i := v]\<close> does), and a read outside the array gives
  \<^verbatim>\<open>undefined\<close>, which is stored as the byte 0.
\<close>

type_synonym bytes = "8 word list"

datatype codecError = RangeError | Diverges

definition rd :: "bytes \<Rightarrow> nat \<Rightarrow> 8 word" where
  "rd data k = (if k < length data then data ! k else 0)"

text \<open>
  The two nested \<^verbatim>\<open>for\<close> loops of \<^verbatim>\<open>encode\<close> and \<^verbatim>\<open>decode\<close>, and the loop
  that copies the remaining bytes.
\<close>

definition shuffle_loop :: "nat \<Rightarrow> nat \<Rightarrow> bytes \<Rightarrow> bytes \<Rightarrow> bytes" where
  "shuffle_loop numElems elemSize data result =
     fold (\<lambda>i r. fold (\<lambda>j r'. r'[j * numElems + i := rd data (i * elemSize + j)])
                      [0..<elemSize] r)
          [0..<numElems] result"

definition unshuffle_loop :: "nat \<Rightarrow> nat \<Rightarrow> bytes \<Rightarrow> bytes \<Rightarrow> bytes" where
  "unshuffle_loop numElems elemSize data result =
     fold (\<lambda>i r. fold (\<lambda>j r'. r'[i * elemSize + j := rd data (j * numElems + i)])
                      [0..<elemSize] r)
          [0..<numElems] result"

definition copy_remainder :: "nat \<Rightarrow> nat \<Rightarrow> nat \<Rightarrow> bytes \<Rightarrow> bytes \<Rightarrow> bytes" where
  "copy_remainder numElems elemSize remainder data result =
     fold (\<lambda>i r. r[numElems * elemSize + i := rd data (numElems * elemSize + i)])
          [0..<remainder] result"

text \<open>
  \<^verbatim>\<open>encode\<close>. The element size is a non-negative integer. With element size 0 and
  a non-empty buffer \<^verbatim>\<open>Math.floor(n / 0)\<close> is \<^verbatim>\<open>Infinity\<close> and the outer loop
  never ends; on the empty buffer every loop bound is \<^verbatim>\<open>NaN\<close> and no loop runs.
\<close>

definition encode :: "nat \<Rightarrow> bytes \<Rightarrow> codecError + bytes" where
  "encode elemSize data =
     (let n = length data in
      if elemSize = 0 \<and> n \<noteq> 0 then Inl Diverges
      else
        let numElems = n div elemSize;
            result = shuffle_loop numElems elemSize data (replicate n 0);
            remainder = n mod elemSize
        in Inr (copy_remainder numElems elemSize remainder data result))"

text \<open>
  \<^verbatim>\<open>decode\<close> logs, before and after the unshuffle, the first
  \<^verbatim>\<open>Math.min(5, numElems)\<close> values read by \<^verbatim>\<open>DataView.getFloat32(i * 4, true)\<close>
  over the whole buffer. \<^verbatim>\<open>getFloat32\<close> throws a \<^verbatim>\<open>RangeError\<close> when the four
  bytes at the offset do not lie inside the view; the value read is only printed.
\<close>

definition getFloat32_ok :: "nat \<Rightarrow> nat \<Rightarrow> bool" where
  "getFloat32_ok byteLength byteOffset = (byteOffset + 4 \<le> byteLength)"

definition debug_floats :: "nat \<Rightarrow> nat \<Rightarrow> codecError + unit" where
  "debug_floats byteLength numElems =
     (if list_all (\<lambda>i. getFloat32_ok byteLength (i * 4)) [0..<min 5 numElems]
      then Inr () else Inl RangeError)"

definition decode :: "nat \<Rightarrow> bytes \<Rightarrow> codecError + bytes" where
  "decode elemSize data =
     (let n = length data in
      if elemSize = 0 \<and> n \<noteq> 0 then Inl Diverges
      else
        let numElems = n div elemSize in
        case debug_floats n numElems of
          Inl e \<Rightarrow> Inl e
        | Inr _ \<Rightarrow>
            let result = unshuffle_loop numElems elemSize data (replicate n 0);
                remainder = n mod elemSize;
                result' = copy_remainder numElems elemSize remainder data result
            in (case debug_floats (length result') numElems of
                  Inl e \<Rightarrow> Inl e
                | Inr _ \<Rightarrow> Inr result'))"

text \<open>The round trip: encode, then decode what encode returned.\<close>

definition roundtrip :: "nat \<Rightarrow> bytes \<Rightarrow> codecError + bytes" where
  "roundtrip elemSize data =
     (case encode elemSize data of Inl e \<Rightarrow> Inl e | Inr enc \<Rightarrow> decode elemSize enc)"

text \<open>
  What the loops of \<^verbatim>\<open>decode\<close> and of \<^verbatim>\<open>encode\<close> leave in \<^verbatim>\<open>result\<close>, and the
  index pairs \<^verbatim>\<open>(i, j)\<close> in the order the nested loops visit them.
\<close>

definition unshuffled :: "nat \<Rightarrow> bytes \<Rightarrow> bytes" where
  "unshuffled e data =
     copy_remainder (length data div e) e (length data mod e) data
       (unshuffle_loop (length data div e) e data (replicate (length data) 0))"

definition shuffled :: "nat \<Rightarrow> bytes \<Rightarrow> bytes" where
  "shuffled e data =
     copy_remainder (length data div e) e (length data mod e) data
       (shuffle_loop (length data div e) e data (replicate (length data) 0))"

definition cells :: "nat \<Rightarrow> nat \<Rightarrow> (nat \<times> nat) list" where
  "cells numElems elemSize = List.product [0..<numElems] [0..<elemSize]"

section \<open>Time codec\<close>

subsection \<open>Characters, numbers and their text\<close>

text \<open>
  Strings are lists of 8-bit characters. Numbers that hold years, months, days and
  indices are mathematical integers (a JavaScript number is exact on integers below
  \<open>2 ^ 53\<close> in magnitude); \<^verbatim>\<open>NaN\<close> is \<open>None\<close> of an \<open>int option\<close>, and the
  sentinels \<^verbatim>\<open>Infinity\<close> and \<^verbatim>\<open>-Infinity\<close> are constructors of \<open>xint\<close>. Raw time
  values and scale factors are rationals.
\<close>

definition isDigit :: "char \<Rightarrow> bool" where
  "isDigit c = (48 \<le> (of_char c :: nat) \<and> (of_char c :: nat) \<le> 57)"

definition digitVal :: "char \<Rightarrow> int" where
  "digitVal c = int (of_char c) - 48"

text \<open>White space of \<^verbatim>\<open>\s\<close> and of \<^verbatim>\<open>parseInt\<close>: TAB, LF, VT, FF, CR, SP, NBSP.\<close>

definition isSpace :: "char \<Rightarrow> bool" where
  "isSpace c = ((of_char c :: nat) \<in> {9, 10, 11, 12, 13, 32, 160})"

definition isUpper :: "char \<Rightarrow> bool" where
  "isUpper c = (65 \<le> (of_char c :: nat) \<and> (of_char c :: nat) \<le> 90)"

definition isLower :: "char \<Rightarrow> bool" where
  "isLower c = (97 \<le> (of_char c :: nat) \<and> (of_char c :: nat) \<le> 122)"

text \<open>
  \<^verbatim>\<open>toLowerCase\<close> on one character: the ASCII capitals and the Latin-1 capitals
  (\<open>0xC0\<close> to \<open>0xDE\<close> without the multiplication sign \<open>0xD7\<close>) move up by 32.
\<close>

definition toLowerChar :: "char \<Rightarrow> char" where
  "toLowerChar c =
     (let n = (of_char c :: nat) in
      if isUpper c \<or> (192 \<le> n \<and> n \<le> 222 \<and> n \<noteq> 215) then char_of (n + 32) else c)"

definition toLowerCase :: "string \<Rightarrow> string" where
  "toLowerCase s = map toLowerChar s"

text \<open>
  \<^verbatim>\<open>parseInt(s, 10)\<close>: skip leading white space, read one optional sign, then the
  longest run of decimal digits; \<^verbatim>\<open>NaN\<close> when the run is empty.
\<close>

definition digitsValue :: "string \<Rightarrow> int" where
  "digitsValue z = foldl (\<lambda>a c. 10 * a + digitVal c) 0 z"

definition parseInt10 :: "string \<Rightarrow> int option" where
  "parseInt10 s =
     (let s1 = dropWhile isSpace s;
          sgn1 = (case s1 of c # _ \<Rightarrow> if c = CHR ''-'' then -1 else 1 | [] \<Rightarrow> (1::int));
          s2 = (case s1 of c # r \<Rightarrow> if c = CHR ''-'' \<or> c = CHR ''+'' then r else s1 | [] \<Rightarrow> []);
          z = takeWhile isDigit s2
      in if z = [] then None else Some (sgn1 * digitsValue z))"

text \<open>The text of a number in a template literal, and \<^verbatim>\<open>pad2\<close>.\<close>

fun showNat :: "nat \<Rightarrow> string" where
  "showNat n = (if n < 10 then [char_of (48 + n)]
                else showNat (n div 10) @ [char_of (48 + n mod 10)])"

declare showNat.simps [simp del]

definition showInt :: "int \<Rightarrow> string" where
  "showInt n = (if n < 0 then CHR ''-'' # showNat (nat (- n)) else showNat (nat n))"

definition showNumber :: "int option \<Rightarrow> string" where
  "showNumber n = (case n of None \<Rightarrow> ''NaN'' | Some k \<Rightarrow> showInt k)"

definition pad2 :: "int option \<Rightarrow> string" where
  "pad2 n = (case n of
               None \<Rightarrow> ''NaN''
             | Some k \<Rightarrow> if k < 10 then CHR ''0'' # showInt k else showInt k)"

text \<open>The remainder operator \<^verbatim>\<open>%\<close> of JavaScript takes the sign of the dividend.\<close>

definition jsRem :: "int \<Rightarrow> int \<Rightarrow> int" where
  "jsRem a b = sgn a * (\<bar>a\<bar> mod \<bar>b\<bar>)"

datatype xint = NegInfinity | Fin int | Infinity

fun xless :: "xint \<Rightarrow> xint \<Rightarrow> bool" where
  "xless (Fin a) (Fin b) = (a < b)"
| "xless NegInfinity NegInfinity = False"
| "xless NegInfinity _ = True"
| "xless _ NegInfinity = False"
| "xless Infinity _ = False"
| "xless _ Infinity = True"

fun isFinite :: "xint \<Rightarrow> bool" where
  "isFinite (Fin _) = True"
| "isFinite _ = False"

subsection \<open>The units string\<close>

datatype calendar =
  Standard | Gregorian | ProlepticGregorian | Julian | Day365 | Noleap | Day360

record TimeEncoding =
  toDays :: rat
  epochYear :: int
  epochMonth :: int
  epochDay :: int
  calendar :: calendar

datatype encoding = PackedDate | Encoding TimeEncoding

text \<open>
  The regular expressions \<^verbatim>\<open>UNITS_RE\<close> and \<^verbatim>\<open>PACKED_DATE_RE\<close> are anchored at the
  start and case-insensitive. Each piece below consumes a prefix and returns the rest.
  After a greedy \<^verbatim>\<open>\s+\<close> or \<^verbatim>\<open>\d{1,k}\<close> the next piece never starts with a
  character the run could give back, so backtracking finds nothing more.
\<close>

fun matchLit :: "string \<Rightarrow> string \<Rightarrow> string option" where
  "matchLit [] s = Some s"
| "matchLit (p # ps) [] = None"
| "matchLit (p # ps) (c # cs) =
     (if toLowerChar c = toLowerChar p \<and> (of_char c :: nat) < 128 then matchLit ps cs else None)"

definition matchSpaces :: "string \<Rightarrow> string option" where
  "matchSpaces s = (case s of [] \<Rightarrow> None
                    | c # cs \<Rightarrow> if isSpace c then Some (dropWhile isSpace cs) else None)"

definition matchDigits :: "nat \<Rightarrow> string \<Rightarrow> (string \<times> string) option" where
  "matchDigits k s =
     (let run = take k (takeWhile isDigit s) in
      if run = [] then None else Some (run, drop (length run) s))"

definition PACKED_DATE_RE_test :: "string \<Rightarrow> bool" where
  "PACKED_DATE_RE_test s =
     (case matchLit ''day'' s of None \<Rightarrow> False | Some s1 \<Rightarrow>
      case matchSpaces s1 of None \<Rightarrow> False | Some s2 \<Rightarrow>
      case matchLit ''as'' s2 of None \<Rightarrow> False | Some s3 \<Rightarrow>
      case matchSpaces s3 of None \<Rightarrow> False | Some s4 \<Rightarrow>
      matchLit ''%Y%m%d'' s4 \<noteq> None)"

definition unitNames :: "string list" where
  "unitNames = [''days'', ''hours'', ''minutes'', ''seconds'', ''milliseconds'']"

fun matchUnit :: "string list \<Rightarrow> string \<Rightarrow> (string \<times> string) option" where
  "matchUnit [] s = None"
| "matchUnit (u # us) s =
     (case (case matchLit u s of None \<Rightarrow> None | Some r1 \<Rightarrow> matchSpaces r1) of
        Some r \<Rightarrow> Some (take (length u) s, r)
      | None \<Rightarrow> matchUnit us s)"

text \<open>\<^verbatim>\<open>UNITS_RE.exec\<close>: the four captured groups, or \<open>None\<close> for no match.\<close>

definition UNITS_RE_exec :: "string \<Rightarrow> (string \<times> string \<times> string \<times> string) option" where
  "UNITS_RE_exec s =
     (case matchUnit unitNames s of None \<Rightarrow> None | Some (m1, s1) \<Rightarrow>
      case matchLit ''since'' s1 of None \<Rightarrow> None | Some s2 \<Rightarrow>
      case matchSpaces s2 of None \<Rightarrow> None | Some s3 \<Rightarrow>
      case matchDigits 4 s3 of None \<Rightarrow> None | Some (m2, s4) \<Rightarrow>
      case matchLit ''-'' s4 of None \<Rightarrow> None | Some s5 \<Rightarrow>
      case matchDigits 2 s5 of None \<Rightarrow> None | Some (m3, s6) \<Rightarrow>
      case matchLit ''-'' s6 of None \<Rightarrow> None | Some s7 \<Rightarrow>
      case matchDigits 2 s7 of None \<Rightarrow> None | Some (m4, s8) \<Rightarrow>
      Some (m1, m2, m3, m4))"

text \<open>The scale factors are exact fractions here; the source holds their nearest doubles.\<close>

definition UNIT_TO_DAYS :: "string \<rightharpoonup> rat" where
  "UNIT_TO_DAYS =
     [''days'' \<mapsto> 1, ''hours'' \<mapsto> 1 / 24, ''minutes'' \<mapsto> 1 / 1440,
      ''seconds'' \<mapsto> 1 / 86400, ''milliseconds'' \<mapsto> 1 / 86400000]"

definition normalizeCalendar :: "string option \<Rightarrow> calendar" where
  "normalizeCalendar cal =
     (case cal of
        None \<Rightarrow> Day365
      | Some c \<Rightarrow>
          if c = [] then Day365
          else
            let lc = filter (\<lambda>ch. isLower ch \<or> isDigit ch \<or> ch = CHR ''_'') (toLowerCase c) in
            if lc = ''noleap'' \<or> lc = ''365_day'' then Day365
            else if lc = ''360_day'' then Day360
            else if lc = ''julian'' then Julian
            else Standard)"

text \<open>
  The three date groups are non-empty runs of digits, on which \<^verbatim>\<open>parseInt\<close> always
  gives a number (lemma \<open>parseInt10_digits\<close> below), so the epoch fields are
  integers; the last branch of the case on them is never taken.
\<close>

definition parseTimeUnits :: "string option \<Rightarrow> string option \<Rightarrow> encoding option" where
  "parseTimeUnits units cal =
     (case units of
        None \<Rightarrow> None
      | Some u \<Rightarrow>
          if u = [] then None
          else if PACKED_DATE_RE_test u then Some PackedDate
          else
            case UNITS_RE_exec u of
              None \<Rightarrow> None
            | Some (m1, m2, m3, m4) \<Rightarrow>
                (case UNIT_TO_DAYS (toLowerCase m1) of
                   None \<Rightarrow> None
                 | Some td \<Rightarrow>
                     (case (parseInt10 m2, parseInt10 m3, parseInt10 m4) of
                        (Some y, Some m, Some d) \<Rightarrow>
                          Some (Encoding \<lparr>toDays = td, epochYear = y, epochMonth = m,
                                          epochDay = d, calendar = normalizeCalendar cal\<rparr>)
                      | _ \<Rightarrow> None)))"

subsection \<open>Calendar arithmetic\<close>

definition NOLEAP_DAYS :: "int list" where
  "NOLEAP_DAYS = [31, 28, 31, 30, 31, 30, 31, 31, 30, 31, 30, 31]"

definition isLeapYear :: "int \<Rightarrow> bool" where
  "isLeapYear y = ((y mod 4 = 0 \<and> y mod 100 \<noteq> 0) \<or> y mod 400 = 0)"

text \<open>Reading an array at an integer index: \<^verbatim>\<open>undefined\<close> outside the array.\<close>

definition at_index :: "'a list \<Rightarrow> int \<Rightarrow> 'a option" where
  "at_index xs i = (if 0 \<le> i \<and> i < int (length xs) then Some (xs ! nat i) else None)"

definition daysInMonth :: "int \<Rightarrow> int \<Rightarrow> calendar \<Rightarrow> int option" where
  "daysInMonth y m cal =
     (if cal = Day360 then Some 30
      else if cal = Day365 \<or> cal = Noleap then at_index NOLEAP_DAYS (m - 1)
      else if m = 2 \<and> isLeapYear y then Some 29
      else at_index [31, 28, 31, 30, 31, 30, 31, 31, 30, 31, 30, 31] (m - 1))"

text \<open>
  The built-in \<^verbatim>\<open>Date\<close>, as the language standard defines it, for dates at
  midnight UTC. A date object holds a day number counted from 1970-01-01, or
  \<^verbatim>\<open>NaN\<close> (\<open>None\<close>) when its time value is outside \<open>\<plusminus>8.64e15\<close> milliseconds,
  which is \<open>\<plusminus>100000000\<close> days.
\<close>

definition DayFromYear :: "int \<Rightarrow> int" where
  "DayFromYear y =
     365 * (y - 1970) + (y - 1969) div 4 - (y - 1901) div 100 + (y - 1601) div 400"

text \<open>
  Each year has 365 or 366 days, so \<open>DayFromYear\<close> grows with the year; the search
  for \<^verbatim>\<open>YearFromTime\<close> below ends for that reason.
\<close>

lemma div_succ:
  fixes x n :: int
  assumes "1 < n"
  shows "(x + 1) div n = x div n + (if n dvd (x + 1) then 1 else 0)"
proof -
  define r where "r = x mod n"
  have r: "0 \<le> r" "r < n" using assms by (simp_all add: r_def)
  have one: "1 div n = 0" "1 mod n = 1" using assms by simp_all
  have d: "(x + 1) div n = x div n + (r + 1) div n"
    unfolding r_def using div_add1_eq [of x 1 n] by (simp only: one add_0_right)
  have m: "(x + 1) mod n = (r + 1) mod n"
    unfolding r_def by (simp only: mod_add_left_eq)
  show ?thesis
  proof (cases "r + 1 = n")
    case True
    have "(r + 1) div n = 1" "(r + 1) mod n = 0" using assms by (simp_all only: True mod_self) simp
    then have "(x + 1) div n = x div n + 1" "n dvd (x + 1)"
      using d m by (simp_all only: dvd_eq_mod_eq_0)
    then show ?thesis by (simp only: if_True)
  next
    case False
    then have lt: "r + 1 < n" using r by linarith
    have nn: "0 \<le> r + 1" using r by linarith
    have "(r + 1) div n = 0" by (rule div_pos_pos_trivial [OF nn lt])
    moreover have "(r + 1) mod n = r + 1" by (rule mod_pos_pos_trivial [OF nn lt])
    moreover have "r + 1 \<noteq> 0" using r by linarith
    ultimately have "(x + 1) div n = x div n" "\<not> n dvd (x + 1)"
      using d m by (simp_all only: dvd_eq_mod_eq_0 add_0_right not_False_eq_True)
    then show ?thesis by (simp only: if_False add_0_right)
  qed
qed

lemma div_succ_shift:
  fixes y n k :: int
  assumes "1 < n"
  shows "(y + 1 + k * n) div n = (y + k * n) div n + (if n dvd y + 1 then 1 else 0)"
proof -
  have "(y + k * n + 1) div n = (y + k * n) div n + (if n dvd (y + k * n + 1) then 1 else 0)"
    by (rule div_succ [OF assms])
  moreover have "n dvd (y + k * n + 1) \<longleftrightarrow> n dvd (y + 1)"
    using dvd_add_times_triv_right_iff [of n "y + 1" k] by (simp only: ac_simps)
  ultimately show ?thesis by (simp only: ac_simps)
qed

lemma DayFromYear_step:
  "DayFromYear (y + 1) =
     DayFromYear y + 365 + (if 4 dvd y then 1 else 0) - (if 100 dvd y then 1 else 0)
       + (if 400 dvd y then 1 else 0)"
proof -
  have a: "(y + 1 - 1969) div 4 = (y - 1969) div 4 + (if 4 dvd y then 1 else 0)"
  proof -
    have "(y - 1 + 1 + (-492) * 4) div 4 = (y - 1 + (-492) * 4) div 4 + (if 4 dvd y - 1 + 1 then 1 else 0)"
      by (rule div_succ_shift) simp
    then show ?thesis by simp
  qed
  have b: "(y + 1 - 1901) div 100 = (y - 1901) div 100 + (if 100 dvd y then 1 else 0)"
  proof -
    have "(y - 1 + 1 + (-19) * 100) div 100 = (y - 1 + (-19) * 100) div 100 + (if 100 dvd y - 1 + 1 then 1 else 0)"
      by (rule div_succ_shift) simp
    then show ?thesis by simp
  qed
  have c: "(y + 1 - 1601) div 400 = (y - 1601) div 400 + (if 400 dvd y then 1 else 0)"
  proof -
    have "(y - 1 + 1 + (-4) * 400) div 400 = (y - 1 + (-4) * 400) div 400 + (if 400 dvd y - 1 + 1 then 1 else 0)"
      by (rule div_succ_shift) simp
    then show ?thesis by simp
  qed
  show ?thesis unfolding DayFromYear_def a b c by simp
qed

lemma DayFromYear_mono_step: "DayFromYear y + 365 \<le> DayFromYear (y + 1)"
proof -
  have "(100::int) dvd y \<Longrightarrow> 4 dvd y" by (rule dvd_trans [of 4 100 y]) simp_all
  then show ?thesis unfolding DayFromYear_step [of y] by (auto split: if_splits)
qed

text \<open>
  \<^verbatim>\<open>YearFromTime\<close>: the largest year that starts on or before the day. The search
  starts from an estimate, steps down while the year starts after the day, then up
  while the next year starts on or before it.
\<close>

function yearDown :: "int \<Rightarrow> int \<Rightarrow> int" where
  "yearDown y d = (if d < DayFromYear y then yearDown (y - 1) d else y)"
  by pat_completeness auto
termination
proof (relation "measure (\<lambda>(y, d). nat (DayFromYear y - d))")
  show "wf (measure (\<lambda>(y, d). nat (DayFromYear y - d)))" by simp
next
  fix y d :: int
  assume "d < DayFromYear y"
  then show "((y - 1, d), (y, d)) \<in> measure (\<lambda>(y, d). nat (DayFromYear y - d))"
    using DayFromYear_mono_step [of "y - 1"] by simp
qed

function yearUp :: "int \<Rightarrow> int \<Rightarrow> int" where
  "yearUp y d = (if DayFromYear (y + 1) \<le> d then yearUp (y + 1) d else y)"
  by pat_completeness auto
termination
proof (relation "measure (\<lambda>(y, d). nat (d - DayFromYear y))")
  show "wf (measure (\<lambda>(y, d). nat (d - DayFromYear y)))" by simp
next
  fix y d :: int
  assume "DayFromYear (y + 1) \<le> d"
  then show "((y + 1, d), (y, d)) \<in> measure (\<lambda>(y, d). nat (d - DayFromYear y))"
    using DayFromYear_mono_step [of y] by simp
qed

declare yearDown.simps [simp del] yearUp.simps [simp del]

definition YearFromDay :: "int \<Rightarrow> int" where
  "YearFromDay d = yearUp (yearDown (1970 + d div 365) d) d"

definition monthLengths :: "int \<Rightarrow> int list" where
  "monthLengths y =
     [31, if isLeapYear y then 29 else 28, 31, 30, 31, 30, 31, 31, 30, 31, 30, 31]"

text \<open>
  \<^verbatim>\<open>MonthFromTime\<close> (0 to 11) and \<^verbatim>\<open>DateFromTime\<close> (1 to 31) of a day within
  its year: walk the months of that year.
\<close>

fun monthAndDate :: "int list \<Rightarrow> int \<Rightarrow> int \<Rightarrow> int \<times> int" where
  "monthAndDate [] m dayWithinYear = (m, dayWithinYear + 1)"
| "monthAndDate (len # lens) m dayWithinYear =
     (if dayWithinYear < len then (m, dayWithinYear + 1)
      else monthAndDate lens (m + 1) (dayWithinYear - len))"

definition MonthFromDay :: "int \<Rightarrow> int" where
  "MonthFromDay d =
     (let y = YearFromDay d in fst (monthAndDate (monthLengths y) 0 (d - DayFromYear y)))"

definition DateFromDay :: "int \<Rightarrow> int" where
  "DateFromDay d =
     (let y = YearFromDay d in snd (monthAndDate (monthLengths y) 0 (d - DayFromYear y)))"

text \<open>\<^verbatim>\<open>MakeDay(year, month, date)\<close>: months beyond 0 to 11 carry into the year.\<close>

definition MakeDay :: "int \<Rightarrow> int \<Rightarrow> int \<Rightarrow> int" where
  "MakeDay y m dt =
     (let ym = y + m div 12; mn = m mod 12
      in DayFromYear ym + sum_list (take (nat mn) (monthLengths ym)) + dt - 1)"

definition TimeClip :: "int \<Rightarrow> int option" where
  "TimeClip d = (if \<bar>d\<bar> > 100000000 then None else Some d)"

definition Date_UTC :: "int \<Rightarrow> int \<Rightarrow> int \<Rightarrow> int option" where
  "Date_UTC y m dt =
     (let yr = (if 0 \<le> y \<and> y \<le> 99 then 1900 + y else y) in TimeClip (MakeDay yr m dt))"

definition setUTCFullYear :: "int option \<Rightarrow> int \<Rightarrow> int option" where
  "setUTCFullYear date y =
     (let t = (case date of None \<Rightarrow> 0 | Some d \<Rightarrow> d)
      in TimeClip (MakeDay y (MonthFromDay t) (DateFromDay t)))"

definition getUTCFullYear :: "int option \<Rightarrow> int option" where
  "getUTCFullYear date = map_option YearFromDay date"

definition getUTCMonth :: "int option \<Rightarrow> int option" where
  "getUTCMonth date = map_option MonthFromDay date"

definition getUTCDate :: "int option \<Rightarrow> int option" where
  "getUTCDate date = map_option DateFromDay date"

definition setUTCDate :: "int option \<Rightarrow> int option \<Rightarrow> int option" where
  "setUTCDate date dt =
     (case date of
        None \<Rightarrow> None
      | Some t \<Rightarrow>
          (case dt of
             None \<Rightarrow> None
           | Some n \<Rightarrow> TimeClip (MakeDay (YearFromDay t) (MonthFromDay t) n)))"

record ymd =
  year :: "int option"
  month :: "int option"
  day :: "int option"

text \<open>
  The manual walk of \<^verbatim>\<open>addDaysToDate\<close> for the fixed-length calendars. The loop
  \<^verbatim>\<open>while (d < 1)\<close> of the negative branch ends at once when the month table
  gives \<^verbatim>\<open>undefined\<close>, since the day is then \<^verbatim>\<open>NaN\<close>.
\<close>

lemma month_table_ge:
  "at_index [31, 28, 31, 30, 31, 30, 31, 31, 30, 31, 30, 31] i = Some (dm::int) \<Longrightarrow> 28 \<le> dm"
proof -
  assume a: "at_index [31, 28, 31, 30, 31, 30, 31, 31, 30, 31, 30, 31] i = Some dm"
  let ?t = "[31, 28, 31, 30, 31, 30, 31, 31, 30, 31, 30, 31::int]"
  from a have "nat i < length ?t" and "dm = ?t ! nat i"
    by (auto simp: at_index_def split: if_splits)
  then have "dm \<in> set ?t" by (metis nth_mem)
  then show "28 \<le> dm" by auto
qed

lemma daysInMonth_ge: "daysInMonth y m cal = Some dm \<Longrightarrow> 28 \<le> dm"
  using month_table_ge [of "m - 1" dm]
  by (auto simp: daysInMonth_def NOLEAP_DAYS_def split: if_splits)

function walk_back :: "int \<Rightarrow> int \<Rightarrow> int \<Rightarrow> calendar \<Rightarrow> int \<times> int \<times> int option" where
  "walk_back y m d cal =
     (if d < 1 then
        (let m1 = m - 1; m2 = (if m1 < 1 then 12 else m1); y2 = (if m1 < 1 then y - 1 else y)
         in case daysInMonth y2 m2 cal of
              None \<Rightarrow> (y2, m2, None)
            | Some dm \<Rightarrow> walk_back y2 m2 (d + dm) cal)
      else (y, m, Some d))"
  by pat_completeness auto
termination
proof (relation "measure (\<lambda>(y, m, d, cal). nat (1 - d))")
  show "wf (measure (\<lambda>(y, m, d, cal). nat (1 - d)))" by simp
next
  fix y m d :: int and cal :: calendar and m1 m2 y2 dm
  assume "d < 1" and "daysInMonth y2 m2 cal = Some dm"
  then show "((y2, m2, d + dm, cal), (y, m, d, cal)) \<in> measure (\<lambda>(y, m, d, cal). nat (1 - d))"
    using daysInMonth_ge [of y2 m2 cal dm] by simp
qed

text \<open>
  The loop \<^verbatim>\<open>while (remaining > 0)\<close>. When the month table gives \<^verbatim>\<open>undefined\<close>,
  \<^verbatim>\<open>remaining\<close> becomes \<^verbatim>\<open>NaN\<close> after the day and month were moved on, and the loop
  ends.
\<close>

definition excess :: "int \<Rightarrow> int \<Rightarrow> int \<Rightarrow> calendar \<Rightarrow> int" where
  "excess y m d cal = (case daysInMonth y m cal of None \<Rightarrow> 0 | Some dm \<Rightarrow> max 0 (d - dm))"

function walk_forward :: "int \<Rightarrow> int \<Rightarrow> int \<Rightarrow> int \<Rightarrow> calendar \<Rightarrow> int \<times> int \<times> int" where
  "walk_forward y m d remaining cal =
     (if remaining > 0 then
        (let m1 = m + 1; m2 = (if m1 > 12 then 1 else m1); y2 = (if m1 > 12 then y + 1 else y)
         in case daysInMonth y m cal of
              None \<Rightarrow> (y2, m2, 1)
            | Some dm \<Rightarrow>
                (let daysLeftInMonth = dm - d in
                 if remaining \<le> daysLeftInMonth then (y, m, d + remaining)
                 else walk_forward y2 m2 1 (remaining - (daysLeftInMonth + 1)) cal))
      else (y, m, d))"
  by pat_completeness auto
termination
proof (relation "measure (\<lambda>(y, m, d, remaining, cal). nat (remaining + excess y m d cal))")
  show "wf (measure (\<lambda>(y, m, d, remaining, cal). nat (remaining + excess y m d cal)))"
    by simp
next
  fix y m d remaining :: int and cal :: calendar and m1 m2 y2 dm daysLeftInMonth
  assume a: "0 < remaining" "daysInMonth y m cal = Some dm" "daysLeftInMonth = dm - d"
    "\<not> remaining \<le> daysLeftInMonth"
  have "excess y2 m2 1 cal = 0"
    using daysInMonth_ge [of y2 m2 cal] by (auto simp: excess_def split: option.splits)
  moreover have "excess y m d cal = max 0 (d - dm)" using a(2) by (simp add: excess_def)
  ultimately show "((y2, m2, 1, remaining - (daysLeftInMonth + 1), cal), (y, m, d, remaining, cal))
      \<in> measure (\<lambda>(y, m, d, remaining, cal). nat (remaining + excess y m d cal))"
    using a by auto
qed

declare walk_back.simps [simp del] walk_forward.simps [simp del]

definition addDaysToDate :: "int \<Rightarrow> int \<Rightarrow> int \<Rightarrow> rat \<Rightarrow> calendar \<Rightarrow> ymd" where
  "addDaysToDate y m d totalDays cal =
     (if cal = Standard \<or> cal = Gregorian \<or> cal = ProlepticGregorian \<or> cal = Julian then
        (let d0 = Date_UTC y (m - 1) d;
             d1 = (if 0 \<le> y \<and> y < 100 then setUTCFullYear d0 y else d0);
             d2 = setUTCDate d1 (map_option (\<lambda>n. n + \<lfloor>totalDays\<rfloor>) (getUTCDate d1))
         in \<lparr>year = getUTCFullYear d2, month = map_option (\<lambda>n. n + 1) (getUTCMonth d2),
             day = getUTCDate d2\<rparr>)
      else
        (let remaining = \<lfloor>totalDays\<rfloor> in
         if remaining < 0 then
           (case walk_back y m (d + remaining) cal of
              (y', m', d') \<Rightarrow> \<lparr>year = Some y', month = Some m', day = d'\<rparr>)
         else
           (case walk_forward y m d remaining cal of
              (y', m', d') \<Rightarrow> \<lparr>year = Some y', month = Some m', day = Some d'\<rparr>)))"

subsection \<open>Labels\<close>

definition formatLabel :: "ymd \<Rightarrow> string" where
  "formatLabel r = showNumber (year r) @ ''-'' @ pad2 (month r) @ ''-'' @ pad2 (day r)"

definition decodeTimeValue :: "rat \<Rightarrow> encoding \<Rightarrow> string" where
  "decodeTimeValue v enc =
     (case enc of
        PackedDate \<Rightarrow>
          (let dateInt = \<lfloor>v\<rfloor>;
               y = \<lfloor>of_int dateInt / (10000::rat)\<rfloor>;
               m = \<lfloor>of_int (jsRem dateInt 10000) / (100::rat)\<rfloor>;
               d = jsRem dateInt 100
           in formatLabel \<lparr>year = Some y, month = Some m, day = Some d\<rparr>)
      | Encoding e \<Rightarrow>
          (let totalDays = v * toDays e
           in formatLabel (addDaysToDate (epochYear e) (epochMonth e) (epochDay e) totalDays
                 (calendar e))))"

definition decodeTimeArray :: "rat list \<Rightarrow> encoding \<Rightarrow> string list" where
  "decodeTimeArray vs enc = map (\<lambda>v. decodeTimeValue v enc) vs"

definition yearFromLabel :: "string \<Rightarrow> int option" where
  "yearFromLabel label = parseInt10 (takeWhile (\<lambda>c. c \<noteq> CHR ''-'') label)"

text \<open>
  \<^verbatim>\<open>findIndexForYear\<close>: the loop for the least and greatest valid year, then the loop
  for the closest label, which carries the running index. The difference to the target
  is \<^verbatim>\<open>NaN\<close> when the target is.
\<close>

fun yearBounds :: "string list \<Rightarrow> xint \<times> xint \<Rightarrow> xint \<times> xint" where
  "yearBounds [] (lo, hi) = (lo, hi)"
| "yearBounds (l # ls) (lo, hi) =
     (case yearFromLabel l of
        None \<Rightarrow> yearBounds ls (lo, hi)
      | Some y \<Rightarrow>
          yearBounds ls (if xless (Fin y) lo then Fin y else lo,
                         if xless hi (Fin y) then Fin y else hi))"

fun closest :: "string list \<Rightarrow> nat \<Rightarrow> int option \<Rightarrow> nat \<times> xint \<Rightarrow> nat \<times> xint" where
  "closest [] i targetYear (bestIdx, bestDiff) = (bestIdx, bestDiff)"
| "closest (l # ls) i targetYear (bestIdx, bestDiff) =
     (case yearFromLabel l of
        None \<Rightarrow> closest ls (Suc i) targetYear (bestIdx, bestDiff)
      | Some y \<Rightarrow>
          (case targetYear of
             None \<Rightarrow> closest ls (Suc i) targetYear (bestIdx, bestDiff)
           | Some t \<Rightarrow>
               (let diff = \<bar>y - t\<bar> in
                if xless (Fin diff) bestDiff then closest ls (Suc i) targetYear (i, Fin diff)
                else closest ls (Suc i) targetYear (bestIdx, bestDiff))))"

text \<open>
  The target year is a number: an integer, or \<^verbatim>\<open>NaN\<close> (\<open>None\<close>), which
  \<^verbatim>\<open>loadPanelData\<close> stores when the label it derives the year from does not parse. Every
  comparison with \<^verbatim>\<open>NaN\<close> is false: the range test lets it pass, and in the loop above
  no distance is less than the best one.
\<close>

definition findIndexForYear :: "string list \<Rightarrow> int option \<Rightarrow> nat option" where
  "findIndexForYear timeLabels targetYear =
     (if timeLabels = [] then None
      else
        case yearBounds timeLabels (Infinity, NegInfinity) of
          (lo, hi) \<Rightarrow>
            if \<not> isFinite lo \<or> \<not> isFinite hi then None
            else if (case targetYear of
                       None \<Rightarrow> False
                     | Some t \<Rightarrow> xless (Fin t) lo \<or> xless hi (Fin t)) then None
            else Some (fst (closest timeLabels 0 targetYear (0, Infinity))))"

text \<open>
  \<^verbatim>\<open>yearRange\<close> over the label arrays of all panels (\<open>None\<close> for \<^verbatim>\<open>null\<close>). The
  source tests only the least year for finiteness; the loop sets both bounds at the
  first valid year, so the greatest year is finite whenever the least one is.
\<close>

definition yearRange :: "string list option list \<Rightarrow> (int \<times> int) option" where
  "yearRange allTimeLabels =
     (case fold (\<lambda>labels acc. case labels of None \<Rightarrow> acc | Some ls \<Rightarrow> yearBounds ls acc)
                allTimeLabels (Infinity, NegInfinity) of
        (Fin lo, Fin hi) \<Rightarrow> Some (lo, hi)
      | _ \<Rightarrow> None)"

text \<open>The valid years of a list of labels, in label order.\<close>

definition validYears :: "string list \<Rightarrow> int list" where
  "validYears labels = List.map_filter yearFromLabel labels"

text \<open>
  The two outcomes the closest-label loop can have on a list of labels, for a target
  year \<open>t\<close>: no valid label is closer than a given distance, or the label at index
  \<open>j\<close> is valid, no valid label is closer to \<open>t\<close>, and every valid label before it is
  strictly farther.
\<close>

definition noCloser :: "string list \<Rightarrow> int \<Rightarrow> xint \<Rightarrow> bool" where
  "noCloser ls t bd =
     (\<forall>k<length ls. \<forall>y. yearFromLabel (ls ! k) = Some y \<longrightarrow> \<not> xless (Fin \<bar>y - t\<bar>) bd)"

definition firstClosest :: "string list \<Rightarrow> int \<Rightarrow> nat \<Rightarrow> bool" where
  "firstClosest ls t j =
     (j < length ls \<and>
      (\<exists>y. yearFromLabel (ls ! j) = Some y \<and>
           (\<forall>k<length ls. \<forall>y'. yearFromLabel (ls ! k) = Some y' \<longrightarrow>
               \<bar>y - t\<bar> \<le> \<bar>y' - t\<bar> \<and> (k < j \<longrightarrow> \<bar>y - t\<bar> < \<bar>y' - t\<bar>))))"

section \<open>Hierarchy discovery\<close>

text \<open>
  The store, as \<^verbatim>\<open>discoverHierarchy\<close> uses it: \<^verbatim>\<open>listChildren(path)\<close> gives the names
  below a path or throws (\<open>None\<close>), and opening the array at a path gives its shape
  or fails (\<open>None\<close>).
\<close>

record IcechunkStore =
  listChildren :: "string \<Rightarrow> string list option"
  openArray :: "string \<Rightarrow> nat list option"

datatype storeError = ListChildrenThrew

definition COORD_NAMES :: "string set" where
  "COORD_NAMES =
     {''x'', ''y'', ''lat'', ''lon'', ''latitude'', ''longitude'',
      ''time'', ''t'', ''bnds'', ''bounds'', ''time_bnds'', ''time_bounds'',
      ''x_bnds'', ''y_bnds'', ''lat_bnds'', ''lon_bnds'',
      ''mapping'', ''crs'', ''spatial_ref''}"

definition notCoord :: "string \<Rightarrow> bool" where
  "notCoord name = (toLowerCase name \<notin> COORD_NAMES)"

text \<open>The template \<^verbatim>\<open>basePath ? `${basePath}/${child}` : child\<close>.\<close>

definition joinPath :: "string \<Rightarrow> string \<Rightarrow> string" where
  "joinPath basePath child = (if basePath = [] then child else basePath @ ''/'' @ child)"

text \<open>
  Whether the first name of a listing is a group: it is when listing its children
  works and gives at least one name.
\<close>

definition isGroup :: "IcechunkStore \<Rightarrow> string \<Rightarrow> bool" where
  "isGroup st path = (case listChildren st path of None \<Rightarrow> False | Some cs \<Rightarrow> cs \<noteq> [])"

text \<open>
  The loop over the models at depth 2: one \<^verbatim>\<open>listChildren\<close> call per model, outside
  any \<^verbatim>\<open>try\<close>, so a call that throws ends the discovery.
\<close>

fun listExperiments ::
  "IcechunkStore \<Rightarrow> string \<Rightarrow> string list \<Rightarrow> (string \<rightharpoonup> string list)
     \<Rightarrow> storeError + (string \<rightharpoonup> string list)" where
  "listExperiments st basePath [] experiments = Inr experiments"
| "listExperiments st basePath (model # models) experiments =
     (case listChildren st (joinPath basePath model) of
        None \<Rightarrow> Inl ListChildrenThrew
      | Some modelExps \<Rightarrow> listExperiments st basePath models (experiments(model \<mapsto> modelExps)))"

text \<open>The loop that keeps the candidate names whose array opens with rank 2 or more.\<close>

definition spatialArrays :: "IcechunkStore \<Rightarrow> string \<Rightarrow> string list \<Rightarrow> string list" where
  "spatialArrays st samplePath arrayNames =
     filter (\<lambda>name. case openArray st (samplePath @ ''/'' @ name) of
                       None \<Rightarrow> False
                     | Some shape \<Rightarrow> 2 \<le> length shape) arrayNames"

text \<open>\<^verbatim>\<open>groupPathOverride || ""\<close>, for an optional string.\<close>

definition orEmpty :: "string option \<Rightarrow> string" where
  "orEmpty s = (case s of None \<Rightarrow> [] | Some p \<Rightarrow> p)"

text \<open>
  \<^verbatim>\<open>discoverHierarchy\<close> returns models, experiments, variables and the hierarchy depth.
\<close>

type_synonym hierarchy = "string list \<times> (string \<rightharpoonup> string list) \<times> string list \<times> nat"

definition discoverHierarchy :: "IcechunkStore \<Rightarrow> string option \<Rightarrow> storeError + hierarchy" where
  "discoverHierarchy st groupPathOverride =
     (let basePath = orEmpty groupPathOverride in
      case listChildren st basePath of
        None \<Rightarrow> Inl ListChildrenThrew
      | Some [] \<Rightarrow> Inr ([], Map.empty, [], 0)
      | Some (firstGroup # otherChildren) \<Rightarrow>
          (let rootChildren = firstGroup # otherChildren;
               testPath = joinPath basePath firstGroup
           in
           if \<not> isGroup st testPath then
             Inr ([], Map.empty, filter notCoord rootChildren, 0)
           else
             (let firstGroupPath = joinPath basePath firstGroup in
              case listChildren st firstGroupPath of
                None \<Rightarrow> Inl ListChildrenThrew
              | Some [] \<Rightarrow> Inr ([], Map.empty, [], 1)
              | Some (secondChild # others) \<Rightarrow>
                  (let secondLevelChildren = secondChild # others;
                       testPath2 = firstGroupPath @ ''/'' @ secondChild
                   in
                   if \<not> isGroup st testPath2 then
                     Inr ([], [''_root'' \<mapsto> rootChildren], filter notCoord secondLevelChildren, 1)
                   else
                     (case listExperiments st basePath rootChildren Map.empty of
                        Inl e \<Rightarrow> Inl e
                      | Inr experiments \<Rightarrow>
                          (case (case experiments firstGroup of None \<Rightarrow> [] | Some es \<Rightarrow> es) of
                             [] \<Rightarrow> Inr (rootChildren, experiments, [], 2)
                           | firstExp # _ \<Rightarrow>
                               (let samplePath = joinPath basePath firstGroup @ ''/'' @ firstExp in
                                case listChildren st samplePath of
                                  None \<Rightarrow> Inl ListChildrenThrew
                                | Some names \<Rightarrow>
                                    Inr (rootChildren, experiments,
                                         spatialArrays st samplePath (filter notCoord names),
                                         2))))))))"

text \<open>
  Two stores for the scenarios of the hierarchy claim: a base path with the one child
  \<open>A\<close>, whose one child \<open>B\<close> has no children; and model, experiment and two
  variables, of which \<open>var1\<close> is a grid of rank 3 and \<open>var2\<close> a series of rank 1.
\<close>

definition storeAB :: IcechunkStore where
  "storeAB =
     \<lparr>listChildren = (\<lambda>p. if p = ''combined'' then Some [''A'']
                          else if p = ''combined/A'' then Some [''B'']
                          else if p = ''combined/A/B'' then Some []
                          else None),
      openArray = (\<lambda>p. None)\<rparr>"

definition storeModelExp :: IcechunkStore where
  "storeModelExp =
     \<lparr>listChildren = (\<lambda>p. if p = ''combined'' then Some [''modelX'']
                          else if p = ''combined/modelX'' then Some [''expY'']
                          else if p = ''combined/modelX/expY'' then Some [''var1'', ''var2'']
                          else None),
      openArray = (\<lambda>p. if p = ''combined/modelX/expY/var1'' then Some [86, 761, 761]
                       else if p = ''combined/modelX/expY/var2'' then Some [86]
                       else None)\<rparr>"

text \<open>
  Two more stores: the first one again, but listing the children of \<open>B\<close> throws; and
  a model and an experiment whose two arrays are both grids, one of them the longitude
  grid under the name \<open>LON\<close>.
\<close>

definition storeABthrows :: IcechunkStore where
  "storeABthrows =
     \<lparr>listChildren = (\<lambda>p. if p = ''combined'' then Some [''A'']
                          else if p = ''combined/A'' then Some [''B'']
                          else None),
      openArray = (\<lambda>p. None)\<rparr>"

definition storeCoords :: IcechunkStore where
  "storeCoords =
     \<lparr>listChildren = (\<lambda>p. if p = ''combined'' then Some [''modelX'']
                          else if p = ''combined/modelX'' then Some [''expY'']
                          else if p = ''combined/modelX/expY'' then Some [''LON'', ''lithk'']
                          else None),
      openArray = (\<lambda>p. if p = ''combined/modelX/expY/LON'' then Some [761, 761]
                       else if p = ''combined/modelX/expY/lithk'' then Some [86, 761, 761]
                       else None)\<rparr>"
section \<open>Viewer state machine\<close>

subsection \<open>Data\<close>

text \<open>
  A value of a data grid or of the colour range is a number: finite (a rational
  here), \<^verbatim>\<open>NaN\<close>, or one of the two infinities.
\<close>

datatype jsnumber = Num rat | NaN | PosInf | NegInf

record GridConfig =
  width :: rat
  height :: rat
  cellSize :: rat
  xMin :: rat
  yMin :: rat
  xMax :: rat
  yMax :: rat

definition DEFAULT_GRID :: GridConfig where
  "DEFAULT_GRID =
     \<lparr>width = 761, height = 761, cellSize = 8000, xMin = -3040000, yMin = -3040000,
      xMax = -3040000 + 761 * 8000, yMax = -3040000 + 761 * 8000\<rparr>"

record VariableMetadata =
  units :: "string option"
  standardName :: "string option"

text \<open>Group metadata is a table from attribute names to strings.\<close>

type_synonym GroupMetadata = "(string \<times> string) list"

text \<open>
  A number that holds an index, an offset or a year is an integer or \<^verbatim>\<open>NaN\<close> (\<open>None\<close>);
  a field that can also be \<^verbatim>\<open>null\<close> or \<^verbatim>\<open>undefined\<close> is an option of it.
\<close>

type_synonym number = "int option"

record Panel =
  panelId :: string
  selectedModel :: "string option"
  selectedExperiment :: "string option"
  currentData :: "jsnumber list option"
  dataShape :: "nat list option"
  isLoading :: bool
  error :: "string option"
  maxTimeIndex :: int
  groupMetadata :: "GroupMetadata option"
  timeLabels :: "string list option"
  resolvedTimeIndex :: "number option"
  allNaN :: bool

text \<open>
  The fields of \<^verbatim>\<open>EmbedConfig\<close> that the store reads; \<open>None\<close> is \<^verbatim>\<open>undefined\<close>.
\<close>

record PanelConfig =
  pc_model :: "string option"
  pc_experiment :: "string option"

record EmbedConfig =
  embed_model :: "string option"
  embed_experiment :: "string option"
  embed_variable :: "string option"
  embed_time :: "number option"
  embed_colormap :: "string option"
  embed_vmin :: "jsnumber option"
  embed_vmax :: "jsnumber option"
  embed_panels :: "PanelConfig list option"
  embed_autoload :: bool
  embed_instant_load :: "bool option"
  embed_group_path :: "string option"
  embed_data_view :: "string option"

text \<open>
  The state of the store. \<open>targetYear\<close> is \<^verbatim>\<open>null\<close> (\<open>None\<close>) or a number, which can
  be \<^verbatim>\<open>NaN\<close> (\<open>Some None\<close>); so can the slider position \<open>timeIndex\<close>.
  \<open>panelIdCounter\<close> is the counter of the module, which
  \<^verbatim>\<open>generatePanelId\<close> increments.
\<close>

record ViewerState =
  isInitializing :: bool
  initError :: "string option"
  store :: "IcechunkStore option"
  embedConfig :: "EmbedConfig option"
  dataView :: string
  gridConfig :: GridConfig
  models :: "string list"
  experiments :: "string \<rightharpoonup> string list"
  variables :: "string list"
  hierarchyDepth :: nat
  fillValue :: "jsnumber option"
  variableMetadata :: "VariableMetadata option"
  panels :: "Panel list"
  activePanelId :: "string option"
  selectedVariable :: "string option"
  timeIndex :: number
  targetYear :: "number option"
  colormap :: string
  vmin :: jsnumber
  vmax :: jsnumber
  autoRange :: bool
  viewState :: "((rat \<times> rat \<times> rat) \<times> rat) option"
  hoverGridPosition :: "(int \<times> int) option"
  hoveredPanelId :: "string option"
  panelIdCounter :: nat

text \<open>Truthiness of an optional string, and \<^verbatim>\<open>a || b\<close> on optional strings.\<close>

definition truthy :: "string option \<Rightarrow> bool" where
  "truthy s = (case s of None \<Rightarrow> False | Some x \<Rightarrow> x \<noteq> [])"

definition orElse :: "string option \<Rightarrow> string option \<Rightarrow> string option" where
  "orElse a b = (if truthy a then a else b)"

subsection \<open>Panels\<close>

definition panelName :: "nat \<Rightarrow> string" where
  "panelName k = ''panel-'' @ showNat k"

text \<open>\<^verbatim>\<open>createEmptyPanel\<close> takes the counter and returns the panel and the new counter.\<close>

definition createEmptyPanel :: "nat \<Rightarrow> Panel \<times> nat" where
  "createEmptyPanel counter =
     (\<lparr>panelId = panelName (Suc counter), selectedModel = None, selectedExperiment = None,
       currentData = None, dataShape = None, isLoading = False, error = None,
       maxTimeIndex = 0, groupMetadata = None, timeLabels = None,
       resolvedTimeIndex = Some (Some 0), allNaN = False\<rparr>,
      Suc counter)"

definition initialState :: ViewerState where
  "initialState =
     (case createEmptyPanel 0 of
        (p, counter) \<Rightarrow>
          \<lparr>isInitializing = False, initError = None, store = None, embedConfig = None,
           dataView = ''combined'', gridConfig = DEFAULT_GRID, models = [],
           experiments = Map.empty, variables = [], hierarchyDepth = 2, fillValue = None,
           variableMetadata = None, panels = [p], activePanelId = None,
           selectedVariable = None, timeIndex = Some 0, targetYear = None,
           colormap = ''viridis'', vmin = Num 0, vmax = Num 4000, autoRange = True,
           viewState = None, hoverGridPosition = None, hoveredPanelId = None,
           panelIdCounter = counter\<rparr>)"

text \<open>\<^verbatim>\<open>panels.map((p) => p.id === panelId ? f(p) : p)\<close>.\<close>

definition updatePanel :: "string \<Rightarrow> (Panel \<Rightarrow> Panel) \<Rightarrow> Panel list \<Rightarrow> Panel list" where
  "updatePanel pid f ps = map (\<lambda>p. if panelId p = pid then f p else p) ps"

text \<open>\<^verbatim>\<open>panels.find((p) => p.id === panelId)\<close>.\<close>

definition findPanel :: "string \<Rightarrow> Panel list \<Rightarrow> Panel option" where
  "findPanel pid ps = List.find (\<lambda>p. panelId p = pid) ps"

subsection \<open>Initialization and data views\<close>

text \<open>
  \<^verbatim>\<open>initialize\<close> and \<^verbatim>\<open>setDataView\<close> wait for the store between their updates of the
  state. Each update is one function here; what the store returned while the action
  waited is an argument of the update that follows.
\<close>

definition initialize_begin :: "EmbedConfig option \<Rightarrow> ViewerState \<Rightarrow> ViewerState" where
  "initialize_begin cfg s =
     (let initialDataView =
            (case orElse (case cfg of None \<Rightarrow> None | Some c \<Rightarrow> embed_data_view c)
                         (Some ''combined'') of
               None \<Rightarrow> [] | Some v \<Rightarrow> v)
      in s\<lparr>isInitializing := True, initError := None, embedConfig := cfg,
           dataView := initialDataView\<rparr>)"

definition initialize_failed :: "string \<Rightarrow> ViewerState \<Rightarrow> ViewerState" where
  "initialize_failed msg s = s\<lparr>initError := Some msg, isInitializing := False\<rparr>"

text \<open>
  The \<^verbatim>\<open>catch\<close> branch can also be reached from inside the loop over the panels of
  the embed configuration (an entry that is \<^verbatim>\<open>null\<close> has no fields to read), after
  \<open>k\<close> panels were created and their ids taken from the counter.
\<close>

definition initialize_aborted :: "nat \<Rightarrow> string \<Rightarrow> ViewerState \<Rightarrow> ViewerState" where
  "initialize_aborted k msg s =
     (initialize_failed msg s)\<lparr>panelIdCounter := panelIdCounter s + k\<rparr>"

text \<open>The panels of the embed configuration, one fresh panel each.\<close>

fun panelsFromConfig :: "PanelConfig list \<Rightarrow> nat \<Rightarrow> Panel list \<times> nat" where
  "panelsFromConfig [] counter = ([], counter)"
| "panelsFromConfig (pc # pcs) counter =
     (case createEmptyPanel counter of
        (p, c1) \<Rightarrow>
          (case panelsFromConfig pcs c1 of
             (ps, c2) \<Rightarrow>
               (p\<lparr>selectedModel := pc_model pc, selectedExperiment := pc_experiment pc\<rparr> # ps,
                c2)))"

definition initialPanels ::
  "EmbedConfig option \<Rightarrow> (string \<rightharpoonup> string list) \<Rightarrow> nat \<Rightarrow> Panel list \<times> nat" where
  "initialPanels cfg exps counter =
     (case (case cfg of None \<Rightarrow> None | Some c \<Rightarrow> embed_panels c) of
        Some (pc # pcs) \<Rightarrow> panelsFromConfig (pc # pcs) counter
      | _ \<Rightarrow>
          (case createEmptyPanel counter of
             (p, c1) \<Rightarrow>
               (case (case cfg of None \<Rightarrow> None | Some c \<Rightarrow> embed_model c) of
                  Some m \<Rightarrow>
                    if m \<noteq> [] then
                      ([p\<lparr>selectedModel := Some m,
                          selectedExperiment :=
                            orElse (case cfg of None \<Rightarrow> None | Some c \<Rightarrow> embed_experiment c)
                              (case exps m of
                                 Some (e # _) \<Rightarrow> Some e
                               | _ \<Rightarrow> None)\<rparr>], c1)
                    else ([p], c1)
                | None \<Rightarrow> ([p], c1))))"

text \<open>The overrides of the embed configuration, applied after the other fields.\<close>

definition applyOverrides :: "EmbedConfig option \<Rightarrow> string list \<Rightarrow> ViewerState \<Rightarrow> ViewerState" where
  "applyOverrides cfg vars s =
     (case cfg of
        None \<Rightarrow> s
      | Some c \<Rightarrow>
          (let s1 = (case embed_variable c of
                       Some v \<Rightarrow> if v \<noteq> [] \<and> v \<in> set vars
                                 then s\<lparr>selectedVariable := Some v\<rparr> else s
                     | None \<Rightarrow> s);
               s2 = (case embed_time c of Some t \<Rightarrow> s1\<lparr>timeIndex := t\<rparr> | None \<Rightarrow> s1);
               s3 = (case embed_colormap c of
                       Some cm \<Rightarrow> if cm \<noteq> [] then s2\<lparr>colormap := cm\<rparr> else s2
                     | None \<Rightarrow> s2);
               s4 = (case embed_vmin c of
                       Some v \<Rightarrow> s3\<lparr>vmin := v, autoRange := False\<rparr>
                     | None \<Rightarrow> s3);
               s5 = (case embed_vmax c of
                       Some v \<Rightarrow> s4\<lparr>vmax := v, autoRange := False\<rparr>
                     | None \<Rightarrow> s4)
           in s5))"

text \<open>
  The sample group path that \<^verbatim>\<open>initialize\<close> and \<^verbatim>\<open>setDataView\<close> read the grid and the
  fill value from (\<open>None\<close> where the template prints \<^verbatim>\<open>undefined\<close>).
\<close>

definition sampleGroupPath ::
  "string \<Rightarrow> string list \<Rightarrow> (string \<rightharpoonup> string list) \<Rightarrow> nat \<Rightarrow> string" where
  "sampleGroupPath groupPath ms exps depth =
     (if depth = 2 \<and> ms \<noteq> [] then
        (case (case exps (hd ms) of None \<Rightarrow> [] | Some es \<Rightarrow> es) of
           [] \<Rightarrow> []
         | e # _ \<Rightarrow> groupPath @ ''/'' @ hd ms @ ''/'' @ e)
      else if depth = 1 then
        (case (case exps ''_root'' of None \<Rightarrow> [] | Some es \<Rightarrow> es) of
           [] \<Rightarrow> groupPath @ ''/undefined''
         | e # _ \<Rightarrow> groupPath @ ''/'' @ e)
      else groupPath)"

text \<open>
  The last update of \<^verbatim>\<open>initialize\<close>. The store \<open>st\<close> has been opened; the grid and
  the fill value are what the store gave for the sample group. A listing that throws
  during discovery takes the \<^verbatim>\<open>catch\<close> branch, with the message \<open>errMsg\<close> of what
  was thrown.
\<close>

definition initialize_complete ::
  "EmbedConfig option \<Rightarrow> IcechunkStore \<Rightarrow> GridConfig \<Rightarrow> jsnumber option \<Rightarrow> string
     \<Rightarrow> ViewerState \<Rightarrow> ViewerState" where
  "initialize_complete cfg st grid discoveredFill errMsg s =
     (let initialDataView =
            orElse (case cfg of None \<Rightarrow> None | Some c \<Rightarrow> embed_data_view c) (Some ''combined'');
          groupPath =
            orElse (case cfg of None \<Rightarrow> None | Some c \<Rightarrow> embed_group_path c)
              (orElse initialDataView (Some ''combined''))
      in
      case discoverHierarchy st groupPath of
        Inl e \<Rightarrow> initialize_failed errMsg s
      | Inr (ms, exps, vars, depth) \<Rightarrow>
          (let sample = sampleGroupPath (orEmpty groupPath) ms exps depth;
               fill = (if vars \<noteq> [] \<and> sample \<noteq> [] then discoveredFill else None);
               defaultVariable = (case vars of [] \<Rightarrow> None | v # _ \<Rightarrow> Some v)
           in
           case initialPanels cfg exps (panelIdCounter s) of
             (ps, counter) \<Rightarrow>
               applyOverrides cfg vars
                 (s\<lparr>store := Some st, models := ms, experiments := exps, variables := vars,
                    hierarchyDepth := depth, gridConfig := grid, fillValue := fill,
                    selectedVariable := defaultVariable, panels := ps,
                    activePanelId := (case ps of [] \<Rightarrow> None
                                      | p # _ \<Rightarrow> orElse (Some (panelId p)) None),
                    isInitializing := False, panelIdCounter := counter\<rparr>)))"

definition setDataView_begin :: "string \<Rightarrow> ViewerState \<Rightarrow> ViewerState" where
  "setDataView_begin view s =
     (case store s of None \<Rightarrow> s | Some st \<Rightarrow> s\<lparr>isInitializing := True, dataView := view\<rparr>)"

text \<open>Which panels \<^verbatim>\<open>setDataView\<close> keeps: the test of its \<^verbatim>\<open>filter\<close>.\<close>

definition panelValid :: "string list \<Rightarrow> (string \<rightharpoonup> string list) \<Rightarrow> Panel \<Rightarrow> bool" where
  "panelValid ms exps p =
     (case selectedModel p of
        None \<Rightarrow> True
      | Some m \<Rightarrow>
          if m = [] then True
          else if m \<notin> set ms then False
          else
            (case (selectedExperiment p, exps m) of
               (Some e, Some es) \<Rightarrow> \<not> (e \<noteq> [] \<and> e \<notin> set es)
             | _ \<Rightarrow> True))"

definition resetPanel :: "Panel \<Rightarrow> Panel" where
  "resetPanel p =
     p\<lparr>currentData := None, dataShape := None, isLoading := False, timeLabels := None,
       resolvedTimeIndex := None\<rparr>"

text \<open>
  The last update of \<^verbatim>\<open>setDataView\<close>. The store \<open>st\<close> and the embed configuration were
  read when the action started; the panels are read just before the update.
\<close>

definition setDataView_complete ::
  "string \<Rightarrow> EmbedConfig option \<Rightarrow> IcechunkStore \<Rightarrow> GridConfig \<Rightarrow> jsnumber option
     \<Rightarrow> string \<Rightarrow> ViewerState \<Rightarrow> ViewerState" where
  "setDataView_complete view cfg st grid discoveredFill errMsg s =
     (let groupPath =
            orElse (case cfg of None \<Rightarrow> None | Some c \<Rightarrow> embed_group_path c) (Some view)
      in
      case discoverHierarchy st groupPath of
        Inl e \<Rightarrow> s\<lparr>initError := Some errMsg, isInitializing := False\<rparr>
      | Inr (ms, exps, vars, depth) \<Rightarrow>
          (let sample = sampleGroupPath (orEmpty groupPath) ms exps depth;
               fill = (if vars \<noteq> [] \<and> sample \<noteq> [] then discoveredFill else None);
               defaultVariable = (case vars of [] \<Rightarrow> None | v # _ \<Rightarrow> Some v);
               validPanels = map resetPanel (filter (panelValid ms exps) (panels s))
           in
           case (if validPanels \<noteq> [] then (validPanels, panelIdCounter s)
                 else (case createEmptyPanel (panelIdCounter s) of (p, c) \<Rightarrow> ([p], c))) of
             (newPanels, counter) \<Rightarrow>
               s\<lparr>models := ms, experiments := exps, variables := vars,
                 hierarchyDepth := depth, gridConfig := grid, fillValue := fill,
                 selectedVariable := defaultVariable, panels := newPanels,
                 activePanelId := (case newPanels of [] \<Rightarrow> None | p # _ \<Rightarrow> Some (panelId p)),
                 timeIndex := Some 0, targetYear := None, variableMetadata := None,
                 isInitializing := False, panelIdCounter := counter\<rparr>))"

subsection \<open>Panel and selection actions\<close>

definition addPanel :: "ViewerState \<Rightarrow> ViewerState" where
  "addPanel s =
     (case createEmptyPanel (panelIdCounter s) of
        (p, counter) \<Rightarrow>
          (let newPanel =
                 (case models s of
                    [] \<Rightarrow> p
                  | m # _ \<Rightarrow>
                      (case experiments s m of
                         Some (e # _) \<Rightarrow> p\<lparr>selectedModel := Some m, selectedExperiment := Some e\<rparr>
                       | _ \<Rightarrow> p\<lparr>selectedModel := Some m\<rparr>))
           in s\<lparr>panels := panels s @ [newPanel], activePanelId := Some (panelId newPanel),
                panelIdCounter := counter\<rparr>))"

definition removePanel :: "string \<Rightarrow> ViewerState \<Rightarrow> ViewerState" where
  "removePanel pid s =
     (if length (panels s) \<le> 1 then s
      else
        (let newPanels = filter (\<lambda>p. panelId p \<noteq> pid) (panels s);
             newActiveId =
               (if activePanelId s = Some pid
                then (case newPanels of [] \<Rightarrow> None | p # _ \<Rightarrow> orElse (Some (panelId p)) None)
                else activePanelId s)
         in s\<lparr>panels := newPanels, activePanelId := newActiveId\<rparr>))"

definition setActivePanel :: "string \<Rightarrow> ViewerState \<Rightarrow> ViewerState" where
  "setActivePanel pid s = s\<lparr>activePanelId := Some pid\<rparr>"

text \<open>
  The update of \<^verbatim>\<open>setPanelModel\<close> and of \<^verbatim>\<open>setPanelExperiment\<close>; the load they may
  start afterwards is \<^verbatim>\<open>loadPanelData\<close> below.
\<close>

definition clearHover :: "string \<Rightarrow> ViewerState \<Rightarrow> ViewerState" where
  "clearHover pid s =
     (if hoveredPanelId s = Some pid \<and> hoverGridPosition s \<noteq> None
      then s\<lparr>hoverGridPosition := None, hoveredPanelId := None\<rparr> else s)"

definition setPanelModel :: "string \<Rightarrow> string \<Rightarrow> ViewerState \<Rightarrow> ViewerState" where
  "setPanelModel pid model s =
     (let modelExps = (case experiments s model of None \<Rightarrow> [] | Some es \<Rightarrow> es);
          change = (\<lambda>p.
            let currentExp = selectedExperiment p;
                newExp = (if (case currentExp of None \<Rightarrow> [] | Some e \<Rightarrow> e) \<in> set modelExps
                          then currentExp
                          else (case modelExps of [] \<Rightarrow> None | e # _ \<Rightarrow> orElse (Some e) None))
            in p\<lparr>selectedModel := Some model, selectedExperiment := newExp,
                 currentData := None, dataShape := None, timeLabels := None,
                 groupMetadata := None, resolvedTimeIndex := None, allNaN := False,
                 error := None\<rparr>)
      in clearHover pid (s\<lparr>panels := updatePanel pid change (panels s)\<rparr>))"

definition setPanelExperiment :: "string \<Rightarrow> string \<Rightarrow> ViewerState \<Rightarrow> ViewerState" where
  "setPanelExperiment pid experiment s =
     (let change = (\<lambda>p.
            p\<lparr>selectedExperiment := Some experiment, currentData := None, dataShape := None,
              timeLabels := None, groupMetadata := None, resolvedTimeIndex := None,
              allNaN := False, error := None\<rparr>)
      in clearHover pid (s\<lparr>panels := updatePanel pid change (panels s)\<rparr>))"

definition setSelectedVariable :: "string \<Rightarrow> ViewerState \<Rightarrow> ViewerState" where
  "setSelectedVariable variable s = s\<lparr>selectedVariable := Some variable\<rparr>"

text \<open>
  \<^verbatim>\<open>setTimeIndex\<close>: the slider position is an offset from the least year of all
  panels. A panel without labels loses its resolved index when it has a time axis.
\<close>

definition resolvedFor :: "string list \<Rightarrow> number \<Rightarrow> number option" where
  "resolvedFor labels target = map_option (\<lambda>k. Some (int k)) (findIndexForYear labels target)"

definition setTimeIndex :: "number \<Rightarrow> ViewerState \<Rightarrow> ViewerState" where
  "setTimeIndex index s =
     (case yearRange (map timeLabels (panels s)) of
        None \<Rightarrow> s\<lparr>timeIndex := index\<rparr>
      | Some (minYear, maxYear) \<Rightarrow>
          (let target = map_option (\<lambda>i. minYear + i) index;
               change = (\<lambda>p.
                 case timeLabels p of
                   Some (l # ls) \<Rightarrow> p\<lparr>resolvedTimeIndex := resolvedFor (l # ls) target\<rparr>
                 | _ \<Rightarrow>
                     if maxTimeIndex p > 0 \<and> resolvedTimeIndex p \<noteq> None
                     then p\<lparr>resolvedTimeIndex := None\<rparr> else p)
           in s\<lparr>timeIndex := index, targetYear := Some target,
                panels := map change (panels s)\<rparr>))"

definition setColormap :: "string \<Rightarrow> ViewerState \<Rightarrow> ViewerState" where
  "setColormap cm s = s\<lparr>colormap := cm\<rparr>"

definition setColorRange :: "jsnumber \<Rightarrow> jsnumber \<Rightarrow> ViewerState \<Rightarrow> ViewerState" where
  "setColorRange lo hi s = s\<lparr>vmin := lo, vmax := hi, autoRange := False\<rparr>"

definition setAutoRange :: "bool \<Rightarrow> ViewerState \<Rightarrow> ViewerState" where
  "setAutoRange auto s = s\<lparr>autoRange := auto\<rparr>"

definition setViewState :: "(rat \<times> rat \<times> rat) \<times> rat \<Rightarrow> ViewerState \<Rightarrow> ViewerState" where
  "setViewState v s = s\<lparr>viewState := Some v\<rparr>"

definition setHoverGridPosition ::
  "(int \<times> int) option \<Rightarrow> string option \<Rightarrow> ViewerState \<Rightarrow> ViewerState" where
  "setHoverGridPosition position pid s = s\<lparr>hoverGridPosition := position, hoveredPanelId := pid\<rparr>"

subsection \<open>The colour range\<close>

text \<open>
  \<^verbatim>\<open>computeAutoRange\<close>. Arithmetic on finite values is exact here; the two percentile
  indices \<^verbatim>\<open>Math.floor(n * 0.05)\<close> and \<^verbatim>\<open>Math.floor(n * 0.95)\<close> are the floors of
  \<open>n * 5 / 100\<close> and \<open>n * 95 / 100\<close>. A value is kept unless it is \<^verbatim>\<open>NaN\<close> or
  infinite, larger than \<open>1e10\<close> in magnitude, or within \<open>\<bar>fillValue\<bar> * 1e-6\<close> of a
  finite fill value (a comparison with a fill value that is not finite is false).
\<close>

definition nearFill :: "rat \<Rightarrow> jsnumber option \<Rightarrow> bool" where
  "nearFill v fill =
     (case fill of
        Some (Num f) \<Rightarrow> \<bar>v - f\<bar> < \<bar>f\<bar> * (1 / 1000000)
      | _ \<Rightarrow> False)"

fun keepValues :: "jsnumber option \<Rightarrow> jsnumber list \<Rightarrow> rat list" where
  "keepValues fill [] = []"
| "keepValues fill (Num v # vs) =
     (if \<bar>v\<bar> > 10000000000 then keepValues fill vs
      else if nearFill v fill then keepValues fill vs
      else v # keepValues fill vs)"
| "keepValues fill (_ # vs) = keepValues fill vs"

definition allValidValues :: "ViewerState \<Rightarrow> rat list" where
  "allValidValues s =
     concat (map (\<lambda>p. case currentData p of None \<Rightarrow> [] | Some d \<Rightarrow> keepValues (fillValue s) d)
                 (panels s))"

definition p5Index :: "nat \<Rightarrow> nat" where
  "p5Index n = nat \<lfloor>(of_nat n :: rat) * (5 / 100)\<rfloor>"

definition p95Index :: "nat \<Rightarrow> nat" where
  "p95Index n = nat \<lfloor>(of_nat n :: rat) * (95 / 100)\<rfloor>"

definition computeAutoRange :: "ViewerState \<Rightarrow> ViewerState" where
  "computeAutoRange s =
     (let vs = allValidValues s in
      if vs = [] then s\<lparr>vmin := Num 0, vmax := Num 1\<rparr>
      else
        (let sorted = sort vs;
             p5 = sorted ! p5Index (length sorted);
             p95 = sorted ! p95Index (length sorted)
         in
         if p5 = p95 then
           (if p5 = 0 then s\<lparr>vmin := Num (- 1), vmax := Num 1\<rparr>
            else
              (let margin = \<bar>p5\<bar> * (1 / 10)
               in s\<lparr>vmin := Num (p5 - margin), vmax := Num (p5 + margin)\<rparr>))
         else s\<lparr>vmin := Num p5, vmax := Num p95\<rparr>))"

subsection \<open>Loading a panel\<close>

text \<open>\<^verbatim>\<open>Math.min(timeIndex, maxTime)\<close>, which is \<^verbatim>\<open>NaN\<close> when the slider position is.\<close>

definition minIndex :: "number \<Rightarrow> int \<Rightarrow> number" where
  "minIndex index maxTime = map_option (\<lambda>i. min i maxTime) index"

text \<open>
  The time index of a load, from the slider position and the target year read when
  the load started, the last index \<^verbatim>\<open>maxTime\<close> of the time axis and the labels that
  were decoded (\<open>None\<close> when they were not). The result \<open>None\<close> is \<^verbatim>\<open>null\<close>: no data
  at the target year.
\<close>

definition resolveTimeIndex ::
  "number \<Rightarrow> int \<Rightarrow> number option \<Rightarrow> string list option \<Rightarrow> number option" where
  "resolveTimeIndex index maxTime target labels =
     (case (target, labels) of
        (Some t, Some (l # ls)) \<Rightarrow> resolvedFor (l # ls) t
      | _ \<Rightarrow>
          if target \<noteq> None \<and> labels = None \<and> maxTime > 0 then Some (minIndex index maxTime)
          else if target = None \<and> labels = None \<and> maxTime > 0 then Some (minIndex index maxTime)
          else Some (minIndex index maxTime))"

text \<open>\<^verbatim>\<open>String.includes\<close>, the double quote, and the text of an optional string and of a
  shape in a template.\<close>

definition includesStr :: "string \<Rightarrow> string \<Rightarrow> bool" where
  "includesStr s sub = list_ex (\<lambda>k. take (length sub) (drop k s) = sub) [0..<Suc (length s)]"

definition showNullable :: "string option \<Rightarrow> string" where
  "showNullable s = (case s of None \<Rightarrow> ''null'' | Some x \<Rightarrow> x)"

definition quote :: char where
  "quote = CHR 0x22"

fun joinComma :: "string list \<Rightarrow> string" where
  "joinComma [] = []"
| "joinComma [x] = x"
| "joinComma (x # y # ys) = x @ '','' @ joinComma (y # ys)"

text \<open>
  The first update of \<^verbatim>\<open>loadPanelData\<close>: nothing happens without a store, the panel or
  a variable, nor at depth 2 without a model and an experiment.
\<close>

definition loadStarts :: "string \<Rightarrow> ViewerState \<Rightarrow> bool" where
  "loadStarts pid s =
     (case findPanel pid (panels s) of
        None \<Rightarrow> False
      | Some panel \<Rightarrow>
          store s \<noteq> None \<and> truthy (selectedVariable s) \<and>
          \<not> (hierarchyDepth s = 2 \<and>
               (\<not> truthy (selectedModel panel) \<or> \<not> truthy (selectedExperiment panel))))"

definition loadPanelData_begin :: "string \<Rightarrow> ViewerState \<Rightarrow> ViewerState" where
  "loadPanelData_begin pid s =
     (if loadStarts pid s
      then s\<lparr>panels := updatePanel pid (\<lambda>p. p\<lparr>isLoading := True, error := None\<rparr>) (panels s)\<rparr>
      else s)"

text \<open>The update of the \<^verbatim>\<open>catch\<close> branch, for the message of what was thrown.\<close>

definition loadPanelData_failed ::
  "string \<Rightarrow> string option \<Rightarrow> Panel \<Rightarrow> string \<Rightarrow> ViewerState \<Rightarrow> ViewerState" where
  "loadPanelData_failed pid variable panel errMsg s =
     (let isNotFound = (includesStr errMsg ''Node not found'' \<or> includesStr errMsg ''Missing key'');
          displayError =
            (if isNotFound
             then ''Variable '' @ [quote] @ showNullable variable @ [quote]
                    @ '' not available for ''
                    @ showNullable (selectedModel panel) @ ''/''
                    @ showNullable (selectedExperiment panel)
             else errMsg)
      in s\<lparr>panels := updatePanel pid
             (\<lambda>p. p\<lparr>currentData := None, dataShape := None, error := Some displayError,
                    isLoading := False, allNaN := False\<rparr>) (panels s)\<rparr>)"

text \<open>
  The statistics of the loaded values: the least and the greatest value that is not
  \<^verbatim>\<open>NaN\<close>, and the count of \<^verbatim>\<open>NaN\<close>.
\<close>

fun numLess :: "jsnumber \<Rightarrow> jsnumber \<Rightarrow> bool" where
  "numLess (Num a) (Num b) = (a < b)"
| "numLess NaN _ = False"
| "numLess _ NaN = False"
| "numLess NegInf NegInf = False"
| "numLess NegInf _ = True"
| "numLess _ NegInf = False"
| "numLess PosInf _ = False"
| "numLess _ PosInf = True"

definition dataStats :: "jsnumber list \<Rightarrow> jsnumber \<times> jsnumber \<times> nat" where
  "dataStats data =
     fold (\<lambda>v (lo, hi, nanCount).
             if v = NaN then (lo, hi, Suc nanCount)
             else (if numLess v lo then v else lo, if numLess hi v then v else hi, nanCount))
          data (PosInf, NegInf, 0)"

definition dataAllNaN :: "jsnumber list \<Rightarrow> bool" where
  "dataAllNaN data =
     (case dataStats data of
        (lo, hi, nanCount) \<Rightarrow> nanCount = length data \<or> (lo = PosInf \<and> hi = NegInf))"

text \<open>
  The update after a fetch that succeeded, followed at once by \<^verbatim>\<open>computeAutoRange\<close>
  when the automatic range is on. When no target year is set, it is taken from the
  label at the resolved index, if that label exists and is not empty.
\<close>

definition labelAt :: "string list option \<Rightarrow> number \<Rightarrow> string option" where
  "labelAt labels idx =
     (case (labels, idx) of
        (Some ls, Some i) \<Rightarrow>
          (case at_index ls i of Some l \<Rightarrow> if l \<noteq> [] then Some l else None | None \<Rightarrow> None)
      | _ \<Rightarrow> None)"

definition loadPanelData_loaded ::
  "string \<Rightarrow> jsnumber list \<Rightarrow> nat list \<Rightarrow> int \<Rightarrow> GroupMetadata option
     \<Rightarrow> string list option \<Rightarrow> number \<Rightarrow> jsnumber option \<Rightarrow> VariableMetadata
     \<Rightarrow> ViewerState \<Rightarrow> ViewerState" where
  "loadPanelData_loaded pid data shape2 maxTime groupMeta labels idx newFillValue varMeta s =
     (let newPanels = updatePanel pid
            (\<lambda>p. p\<lparr>currentData := Some data, dataShape := Some shape2,
                   maxTimeIndex := maxTime, isLoading := False, groupMetadata := groupMeta,
                   timeLabels := labels, resolvedTimeIndex := Some idx,
                   allNaN := dataAllNaN data\<rparr>) (panels s);
          s1 = s\<lparr>fillValue := newFillValue, variableMetadata := Some varMeta,
                 panels := newPanels\<rparr>;
          s2 = (case (targetYear s, labelAt labels idx) of
                  (None, Some label) \<Rightarrow>
                    (let yr = yearFromLabel label in
                     case yearRange (map timeLabels newPanels) of
                       None \<Rightarrow> s1\<lparr>targetYear := Some yr\<rparr>
                     | Some (minYear, maxYear) \<Rightarrow>
                         s1\<lparr>targetYear := Some yr,
                            timeIndex := map_option (\<lambda>y. y - minYear) yr\<rparr>)
                | _ \<Rightarrow> s1)
      in if autoRange s2 then computeAutoRange s2 else s2)"

definition loadPanelData_outOfRange ::
  "string \<Rightarrow> int \<Rightarrow> GroupMetadata option \<Rightarrow> string list option
     \<Rightarrow> ViewerState \<Rightarrow> ViewerState" where
  "loadPanelData_outOfRange pid maxTime groupMeta labels s =
     s\<lparr>panels := updatePanel pid
          (\<lambda>p. p\<lparr>currentData := None, dataShape := None, maxTimeIndex := maxTime,
                 isLoading := False, groupMetadata := groupMeta, timeLabels := labels,
                 resolvedTimeIndex := None, allNaN := False\<rparr>) (panels s)\<rparr>"

text \<open>
  The rest of \<^verbatim>\<open>loadPanelData\<close> after its first update. \<open>s0\<close> is the state the load
  read when it started, \<open>s\<close> the state at the update. From the store come: the shape
  of the array or the message of a failed open, the group metadata and the decoded
  labels, the fetched values or the message of a failed fetch (which gets the resolved
  index), and the fill value and the metadata of the variable.
\<close>

definition loadPanelData_settle ::
  "string \<Rightarrow> ViewerState \<Rightarrow> string + nat list \<Rightarrow> GroupMetadata option
     \<Rightarrow> string list option \<Rightarrow> (number \<Rightarrow> string + jsnumber list) \<Rightarrow> jsnumber option
     \<Rightarrow> VariableMetadata \<Rightarrow> ViewerState \<Rightarrow> ViewerState" where
  "loadPanelData_settle pid s0 opened discoveredMeta discoveredLabels fetch newFillValue
       varMeta s =
     (case findPanel pid (panels s0) of
        None \<Rightarrow> s
      | Some panel \<Rightarrow>
          (case opened of
             Inl errMsg \<Rightarrow> loadPanelData_failed pid (selectedVariable s0) panel errMsg s
           | Inr shape \<Rightarrow>
               if length shape \<noteq> 3 \<and> length shape \<noteq> 2 then
                 loadPanelData_failed pid (selectedVariable s0) panel
                   (''Variable '' @ [quote] @ showNullable (selectedVariable s0) @ [quote]
                      @ '' is not a spatial grid (shape: ['' @ joinComma (map showNat shape)
                      @ '']). Only 2D and 3D arrays are supported.'') s
               else
                 (let maxTime = (if length shape = 3 then int (shape ! 0) - 1 else 0);
                      shape2 = (if length shape = 3 then [shape ! 1, shape ! 2]
                                else [shape ! 0, shape ! 1]);
                      inGroup = (hierarchyDepth s0 = 2 \<and> truthy (selectedModel panel)
                                 \<and> truthy (selectedExperiment panel));
                      groupMeta = (if inGroup then discoveredMeta else None);
                      labels = (if inGroup \<and> maxTime > 0 then discoveredLabels else None)
                  in
                  case resolveTimeIndex (timeIndex s0) maxTime (targetYear s0) labels of
                    None \<Rightarrow> loadPanelData_outOfRange pid maxTime groupMeta labels s
                  | Some idx \<Rightarrow>
                      (case fetch idx of
                         Inl errMsg \<Rightarrow>
                           loadPanelData_failed pid (selectedVariable s0) panel errMsg s
                       | Inr data \<Rightarrow>
                           loadPanelData_loaded pid data shape2 maxTime groupMeta labels idx
                             newFillValue varMeta s))))"

text \<open>The first update of \<^verbatim>\<open>loadAllPanels\<close>, before it loads the panels one by one.\<close>

definition loadAllPanels_mark :: "ViewerState \<Rightarrow> ViewerState" where
  "loadAllPanels_mark s =
     (if panels s = [] then s
      else s\<lparr>panels := map (\<lambda>p. if truthy (selectedModel p) \<and> truthy (selectedExperiment p)
                                  then p\<lparr>isLoading := True, error := None\<rparr> else p)
                             (panels s)\<rparr>)"

subsection \<open>Runs of the state machine\<close>

text \<open>
  One step is one update of the state by one of the actions. The actions that wait
  for the store contribute each of their updates as a step of its own, so that other
  actions can run in between; what the store returned, and what the action read when
  it started, is arbitrary here.
\<close>

inductive step :: "ViewerState \<Rightarrow> ViewerState \<Rightarrow> bool" where
  step_initialize_begin: "step s (initialize_begin cfg s)"
| step_initialize_failed: "step s (initialize_failed msg s)"
| step_initialize_aborted: "step s (initialize_aborted k msg s)"
| step_initialize_complete: "step s (initialize_complete cfg st grid fill msg s)"
| step_setDataView_begin: "step s (setDataView_begin view s)"
| step_setDataView_complete: "step s (setDataView_complete view cfg st grid fill msg s)"
| step_addPanel: "step s (addPanel s)"
| step_removePanel: "step s (removePanel pid s)"
| step_setActivePanel: "step s (setActivePanel pid s)"
| step_setPanelModel: "step s (setPanelModel pid model s)"
| step_setPanelExperiment: "step s (setPanelExperiment pid experiment s)"
| step_setSelectedVariable: "step s (setSelectedVariable variable s)"
| step_setTimeIndex: "step s (setTimeIndex index s)"
| step_setColormap: "step s (setColormap cm s)"
| step_setColorRange: "step s (setColorRange lo hi s)"
| step_setAutoRange: "step s (setAutoRange auto s)"
| step_setViewState: "step s (setViewState v s)"
| step_setHoverGridPosition: "step s (setHoverGridPosition position hp s)"
| step_loadPanelData_begin: "step s (loadPanelData_begin pid s)"
| step_loadPanelData_settle:
    "step s (loadPanelData_settle pid s0 opened meta labels fetch newFill varMeta s)"
| step_loadAllPanels_mark: "step s (loadAllPanels_mark s)"

inductive reachable :: "ViewerState \<Rightarrow> bool" where
  reachable_initial: "reachable initialState"
| reachable_step: "reachable s \<Longrightarrow> step s s' \<Longrightarrow> reachable s'"

text \<open>
  What every reachable state satisfies: there is a panel, the panel ids are distinct,
  and each is the name of a counter value that was already handed out.
\<close>

definition handedOut :: "string list \<Rightarrow> nat \<Rightarrow> bool" where
  "handedOut ids counter = (\<forall>i \<in> set ids. \<exists>k. 1 \<le> k \<and> k \<le> counter \<and> i = panelName k)"

definition panelsInvariant :: "ViewerState \<Rightarrow> bool" where
  "panelsInvariant s =
     (panels s \<noteq> [] \<and> distinct (map panelId (panels s)) \<and>
      handedOut (map panelId (panels s)) (panelIdCounter s))"

text \<open>
  A state for the examples: the initial state after its panel has loaded the three
  values \<open>-5, 0, 5\<close>, with no fill value.
\<close>

definition threeValues :: ViewerState where
  "threeValues =
     initialState\<lparr>panels := map (\<lambda>p. p\<lparr>currentData := Some [Num (- 5), Num 0, Num 5]\<rparr>)
                                  (panels initialState)\<rparr>"


section \<open>The shuffle codec: what the loops compute\<close>


lemma upd_fold_length [simp]: "length (fold (\<lambda>k r. r[f k := g k]) ks r) = length r"
  by (induction ks arbitrary: r) auto

lemma upd_fold_other:
  "p \<notin> f ` set ks \<Longrightarrow> fold (\<lambda>k r. r[f k := g k]) ks r ! p = r ! p"
  by (induction ks arbitrary: r) auto

lemma upd_fold_hit:
  "k \<in> set ks \<Longrightarrow> inj_on f (set ks) \<Longrightarrow> f k < length r \<Longrightarrow>
   fold (\<lambda>k r. r[f k := g k]) ks r ! (f k) = g k"
proof (induction ks arbitrary: r)
  case Nil
  then show ?case by simp
next
  case (Cons a ks)
  show ?case
  proof (cases "k \<in> set ks")
    case True
    with Cons show ?thesis by (simp add: inj_on_def)
  next
    case False
    with Cons.prems have ka: "k = a" by simp
    have "f a \<notin> f ` set ks"
      using Cons.prems(2) False ka by (auto simp: inj_on_def)
    then show ?thesis
      using Cons.prems(3) ka by (simp add: upd_fold_other)
  qed
qed

lemma nested_fold_product:
  "fold (\<lambda>i r. fold (\<lambda>j r'. h i j r') ys r) xs r0 =
   fold (\<lambda>(i, j) r. h i j r) (List.product xs ys) r0"
proof (induction xs arbitrary: r0)
  case Nil
  then show ?case by simp
next
  case (Cons x xs)
  have "fold (\<lambda>(i, j) r. h i j r) (map (Pair x) ys) r0 = fold (\<lambda>j r'. h x j r') ys r0"
    by (simp add: fold_map comp_def)
  then show ?case using Cons by simp
qed

lemma unshuffle_loop_flat:
  "unshuffle_loop m e data r =
   fold (\<lambda>k r. r[(\<lambda>(i, j). i * e + j) k := (\<lambda>(i, j). rd data (j * m + i)) k]) (cells m e) r"
  unfolding unshuffle_loop_def cells_def nested_fold_product
  by (simp add: case_prod_unfold)

lemma shuffle_loop_flat:
  "shuffle_loop m e data r =
   fold (\<lambda>k r. r[(\<lambda>(i, j). j * m + i) k := (\<lambda>(i, j). rd data (i * e + j)) k]) (cells m e) r"
  unfolding shuffle_loop_def cells_def nested_fold_product
  by (simp add: case_prod_unfold)

lemma row_major_inj: "inj_on (\<lambda>(i, j). i * e + j) (set (cells m e))"
proof (rule inj_onI, clarsimp simp: cells_def)
  fix i j i' j' :: nat
  assume a: "j < e" "j' < e" "i * e + j = i' * e + j'"
  have "(i * e + j) div e = i" "(i * e + j) mod e = j" using a(1) by simp_all
  moreover have "(i' * e + j') div e = i'" "(i' * e + j') mod e = j'" using a(2) by simp_all
  ultimately show "i = i' \<and> j = j'" using a(3) by metis
qed

lemma col_major_inj: "inj_on (\<lambda>(i, j). j * m + i) (set (cells m e))"
proof (rule inj_onI, clarsimp simp: cells_def)
  fix i j i' j' :: nat
  assume a: "i < m" "i' < m" "j * m + i = j' * m + i'"
  have "(j * m + i) div m = j" "(j * m + i) mod m = i" using a(1) by simp_all
  moreover have "(j' * m + i') div m = j'" "(j' * m + i') mod m = i'" using a(2) by simp_all
  ultimately show "i = i' \<and> j = j'" using a(3) by metis
qed

lemma row_major_bound: "i < m \<Longrightarrow> j < e \<Longrightarrow> i * e + j < m * (e::nat)"
proof -
  assume a: "i < m" "j < e"
  have "i * e + j < i * e + e" using a(2) by simp
  also have "\<dots> = (Suc i) * e" by simp
  also have "\<dots> \<le> m * e" using a(1) by (intro mult_le_mono1) simp
  finally show ?thesis .
qed

lemma col_major_bound: "i < m \<Longrightarrow> j < e \<Longrightarrow> j * m + i < m * (e::nat)"
  using row_major_bound [of j e i m] by (simp add: mult.commute)

lemma unshuffle_loop_length [simp]: "length (unshuffle_loop m e data r) = length r"
  by (simp add: unshuffle_loop_flat)

lemma shuffle_loop_length [simp]: "length (shuffle_loop m e data r) = length r"
  by (simp add: shuffle_loop_flat)

lemma copy_remainder_length [simp]: "length (copy_remainder m e rem data r) = length r"
  by (simp add: copy_remainder_def)

lemma unshuffle_loop_hit:
  assumes "i < m" "j < e" "m * e \<le> length r"
  shows "unshuffle_loop m e data r ! (i * e + j) = rd data (j * m + i)"
proof -
  have "(i, j) \<in> set (cells m e)" using assms by (simp add: cells_def)
  moreover have "(\<lambda>(i, j). i * e + j) (i, j) < length r"
    using row_major_bound [OF assms(1,2)] assms(3) by simp
  ultimately show ?thesis
    using upd_fold_hit [of "(i, j)" "cells m e" "\<lambda>(i, j). i * e + j" r
        "\<lambda>(i, j). rd data (j * m + i)"] row_major_inj [of e m]
    by (simp add: unshuffle_loop_flat)
qed

lemma shuffle_loop_hit:
  assumes "i < m" "j < e" "m * e \<le> length r"
  shows "shuffle_loop m e data r ! (j * m + i) = rd data (i * e + j)"
proof -
  have "(i, j) \<in> set (cells m e)" using assms by (simp add: cells_def)
  moreover have "(\<lambda>(i, j). j * m + i) (i, j) < length r"
    using col_major_bound [OF assms(1,2)] assms(3) by simp
  ultimately show ?thesis
    using upd_fold_hit [of "(i, j)" "cells m e" "\<lambda>(i, j). j * m + i" r
        "\<lambda>(i, j). rd data (i * e + j)"] col_major_inj [of m e]
    by (simp add: shuffle_loop_flat)
qed

lemma unshuffle_loop_tail:
  assumes "m * e \<le> p"
  shows "unshuffle_loop m e data r ! p = r ! p"
proof -
  have "p \<notin> (\<lambda>(i, j). i * e + j) ` set (cells m e)"
    using row_major_bound [of _ m _ e] assms by (fastforce simp: cells_def)
  then show ?thesis by (simp add: unshuffle_loop_flat upd_fold_other)
qed

lemma shuffle_loop_tail:
  assumes "m * e \<le> p"
  shows "shuffle_loop m e data r ! p = r ! p"
proof -
  have "p \<notin> (\<lambda>(i, j). j * m + i) ` set (cells m e)"
    using col_major_bound [of _ m _ e] assms by (fastforce simp: cells_def)
  then show ?thesis by (simp add: shuffle_loop_flat upd_fold_other)
qed

lemma copy_remainder_head:
  "p < m * e \<Longrightarrow> copy_remainder m e rem data r ! p = r ! p"
  unfolding copy_remainder_def
  by (rule upd_fold_other) auto

lemma copy_remainder_hit:
  assumes "i < rem" "m * e + i < length r"
  shows "copy_remainder m e rem data r ! (m * e + i) = rd data (m * e + i)"
proof -
  have "inj_on (\<lambda>i. m * e + i) (set [0..<rem])" by (simp add: inj_on_def)
  then show ?thesis
    using upd_fold_hit [of i "[0..<rem]" "\<lambda>i. m * e + i" r "\<lambda>i. rd data (m * e + i)"] assms
    by (simp add: copy_remainder_def)
qed


lemma all_reads_ok: "list_all (\<lambda>i. i * 4 + 4 \<le> n) [0..<k] \<longleftrightarrow> (k = 0 \<or> 4 * k \<le> n)"
proof (cases k)
  case 0
  then show ?thesis by simp
next
  case (Suc k')
  have "(\<forall>i<Suc k'. i * 4 + 4 \<le> n) \<longleftrightarrow> 4 * Suc k' \<le> n"
  proof
    assume "\<forall>i<Suc k'. i * 4 + 4 \<le> n"
    then have "k' * 4 + 4 \<le> n" by simp
    then show "4 * Suc k' \<le> n" by simp
  next
    assume a: "4 * Suc k' \<le> n"
    show "\<forall>i<Suc k'. i * 4 + 4 \<le> n"
    proof (intro allI impI)
      fix i assume "i < Suc k'"
      then have "i * 4 + 4 \<le> 4 * Suc k'" by simp
      with a show "i * 4 + 4 \<le> n" by linarith
    qed
  qed
  moreover have "list_all (\<lambda>i. i * 4 + 4 \<le> n) [0..<k] \<longleftrightarrow> (\<forall>i<k. i * 4 + 4 \<le> n)"
    by (auto simp: list_all_iff)
  ultimately show ?thesis using Suc by simp
qed

lemma debug_floats_iff:
  "debug_floats n m = Inr () \<longleftrightarrow> (m = 0 \<or> 4 * min 5 m \<le> n)"
proof -
  have "debug_floats n m = Inr () \<longleftrightarrow> list_all (\<lambda>i. i * 4 + 4 \<le> n) [0..<min 5 m]"
    by (simp add: debug_floats_def getFloat32_ok_def)
  also have "\<dots> \<longleftrightarrow> (min 5 m = 0 \<or> 4 * min 5 m \<le> n)" by (rule all_reads_ok)
  also have "\<dots> \<longleftrightarrow> (m = 0 \<or> 4 * min 5 m \<le> n)" by auto
  finally show ?thesis .
qed

lemma debug_floats_cases: "debug_floats n m = Inr () \<or> debug_floats n m = Inl RangeError"
  by (simp add: debug_floats_def)

lemma decode_eq:
  assumes "1 \<le> e"
  shows "decode e data =
     (if length data div e = 0 \<or> 4 * min 5 (length data div e) \<le> length data
      then Inr (unshuffled e data) else Inl RangeError)"
proof (cases "debug_floats (length data) (length data div e) = Inr ()")
  case True
  then have "decode e data = Inr (unshuffled e data)"
    using assms by (simp add: decode_def Let_def unshuffled_def)
  then show ?thesis using True by (simp add: debug_floats_iff)
next
  case False
  then have f: "debug_floats (length data) (length data div e) = Inl RangeError"
    using debug_floats_cases by blast
  then have "decode e data = Inl RangeError"
    using assms by (simp add: decode_def Let_def)
  then show ?thesis using False by (simp add: debug_floats_iff)
qed

lemma encode_eq: "1 \<le> e \<Longrightarrow> encode e data = Inr (shuffled e data)"
  by (simp add: encode_def Let_def shuffled_def)

lemma unshuffled_length [simp]: "length (unshuffled e data) = length data"
  by (simp add: unshuffled_def)

lemma shuffled_length [simp]: "length (shuffled e data) = length data"
  by (simp add: shuffled_def)

lemma div_mult_le_len: "(n::nat) div e * e \<le> n"
  by simp

lemma unshuffled_elem:
  assumes "i < length data div e" "j < e"
  shows "unshuffled e data ! (i * e + j) = data ! (j * (length data div e) + i)"
proof -
  let ?m = "length data div e"
  have b: "i * e + j < ?m * e" by (rule row_major_bound [OF assms])
  have c: "j * ?m + i < ?m * e" by (rule col_major_bound [OF assms])
  have le: "?m * e \<le> length data" by simp
  have "unshuffled e data ! (i * e + j) =
        unshuffle_loop ?m e data (replicate (length data) 0) ! (i * e + j)"
    unfolding unshuffled_def by (rule copy_remainder_head [OF b])
  also have "\<dots> = rd data (j * ?m + i)"
    by (rule unshuffle_loop_hit [OF assms]) (simp add: le)
  also have "\<dots> = data ! (j * ?m + i)"
    using order.strict_trans2 [OF c le] by (simp add: rd_def)
  finally show ?thesis .
qed

lemma shuffled_elem:
  assumes "i < length data div e" "j < e"
  shows "shuffled e data ! (j * (length data div e) + i) = data ! (i * e + j)"
proof -
  let ?m = "length data div e"
  have b: "i * e + j < ?m * e" by (rule row_major_bound [OF assms])
  have c: "j * ?m + i < ?m * e" by (rule col_major_bound [OF assms])
  have le: "?m * e \<le> length data" by simp
  have "shuffled e data ! (j * ?m + i) =
        shuffle_loop ?m e data (replicate (length data) 0) ! (j * ?m + i)"
    unfolding shuffled_def by (rule copy_remainder_head [OF c])
  also have "\<dots> = rd data (i * e + j)"
    by (rule shuffle_loop_hit [OF assms]) (simp add: le)
  also have "\<dots> = data ! (i * e + j)"
    using order.strict_trans2 [OF b le] by (simp add: rd_def)
  finally show ?thesis .
qed

lemma unshuffled_tail:
  assumes "1 \<le> e" "length data div e * e \<le> k" "k < length data"
  shows "unshuffled e data ! k = data ! k"
proof -
  let ?m = "length data div e"
  obtain i where k: "k = ?m * e + i" using assms(2) by (metis le_Suc_ex)
  have "length data = ?m * e + length data mod e" by simp
  with k assms(3) have i: "i < length data mod e" by linarith
  have "unshuffled e data ! (?m * e + i) = rd data (?m * e + i)"
    unfolding unshuffled_def
    by (rule copy_remainder_hit [OF i]) (use k assms(3) in simp)
  then show ?thesis using k assms(3) by (simp add: rd_def)
qed

lemma shuffled_tail:
  assumes "1 \<le> e" "length data div e * e \<le> k" "k < length data"
  shows "shuffled e data ! k = data ! k"
proof -
  let ?m = "length data div e"
  obtain i where k: "k = ?m * e + i" using assms(2) by (metis le_Suc_ex)
  have "length data = ?m * e + length data mod e" by simp
  with k assms(3) have i: "i < length data mod e" by linarith
  have "shuffled e data ! (?m * e + i) = rd data (?m * e + i)"
    unfolding shuffled_def
    by (rule copy_remainder_hit [OF i]) (use k assms(3) in simp)
  then show ?thesis using k assms(3) by (simp add: rd_def)
qed

lemma unshuffled_shuffled:
  assumes "1 \<le> e"
  shows "unshuffled e (shuffled e x) = x"
proof (rule nth_equalityI)
  show "length (unshuffled e (shuffled e x)) = length x" by simp
next
  fix k assume "k < length (unshuffled e (shuffled e x))"
  then have kl: "k < length x" by simp
  let ?m = "length x div e"
  show "unshuffled e (shuffled e x) ! k = x ! k"
  proof (cases "k < ?m * e")
    case True
    define i j where "i = k div e" and "j = k mod e"
    have k: "k = i * e + j" by (simp add: i_def j_def)
    have j: "j < e" using assms by (simp add: j_def)
    have i: "i < ?m" using True assms by (simp add: i_def less_mult_imp_div_less)
    have "unshuffled e (shuffled e x) ! (i * e + j) = shuffled e x ! (j * ?m + i)"
      using unshuffled_elem [of i "shuffled e x" e j] i j by simp
    also have "\<dots> = x ! (i * e + j)" by (rule shuffled_elem [OF i j])
    finally show ?thesis by (simp add: k)
  next
    case False
    then have ge: "?m * e \<le> k" by simp
    have "unshuffled e (shuffled e x) ! k = shuffled e x ! k"
      using unshuffled_tail [of e "shuffled e x" k] assms ge kl by simp
    also have "\<dots> = x ! k" by (rule shuffled_tail [OF assms ge kl])
    finally show ?thesis .
  qed
qed

section \<open>The shuffle codec: the claims\<close>

text \<open>
  When \<^verbatim>\<open>decode\<close> returns, it returns a buffer of the same length that holds
  \<open>data ! (j * n + i)\<close> at \<open>i * e + j\<close> for \<open>i < n\<close> and \<open>j < e\<close>, where
  \<open>n = length data div e\<close>, and the trailing bytes unchanged. It returns exactly when
  the logged reads stay inside the buffer, which always holds for elements of four
  bytes or more.
\<close>

lemma decode_spec:
  assumes "1 \<le> e" "decode e data = Inr out"
  shows "length out = length data
       \<and> (\<forall>i<length data div e. \<forall>j<e. out ! (i * e + j) = data ! (j * (length data div e) + i))
       \<and> (\<forall>k. length data div e * e \<le> k \<and> k < length data \<longrightarrow> out ! k = data ! k)"
proof -
  have out: "out = unshuffled e data"
    using assms by (simp add: decode_eq split: if_splits)
  show ?thesis
    unfolding out using unshuffled_elem unshuffled_tail [OF assms(1)] by simp
qed

lemma decode_returns_iff:
  assumes "1 \<le> e"
  shows "(\<exists>out. decode e data = Inr out) \<longleftrightarrow>
         (length data div e = 0 \<or> 4 * min 5 (length data div e) \<le> length data)"
  using assms by (simp add: decode_eq)

lemma decode_wide_elements:
  assumes "4 \<le> e"
  shows "decode e data = Inr (unshuffled e data)"
proof -
  have "4 * (length data div e) \<le> e * (length data div e)"
    using assms by (rule mult_le_mono1)
  also have "\<dots> \<le> length data" by simp
  finally have "4 * min 5 (length data div e) \<le> length data" by simp
  then show ?thesis using assms by (simp add: decode_eq)
qed

lemma roundtrip_spec:
  assumes "1 \<le> e" "roundtrip e x = Inr y"
  shows "y = x"
  using assms by (simp add: roundtrip_def encode_eq decode_eq unshuffled_shuffled split: if_splits)

lemma roundtrip_wide_elements:
  assumes "4 \<le> e"
  shows "roundtrip e x = Inr x"
  using assms decode_wide_elements [OF assms, of "shuffled e x"]
  by (simp add: roundtrip_def encode_eq unshuffled_shuffled)

lemma upt_small: "[0..<4] = [0, 1, 2, 3]" "[0..<2] = [0, 1]"
  by (simp_all add: upt_rec)

lemma encode_two_elements:
  "encode 4 [b0, b1, b2, b3, b4, b5, b6, b7] = Inr [b0, b4, b1, b5, b2, b6, b3, b7]"
  by (simp add: encode_def shuffle_loop_def copy_remainder_def rd_def upt_small)

lemma decode_two_elements:
  "decode 4 [b0, b4, b1, b5, b2, b6, b3, b7] = Inr [b0, b1, b2, b3, b4, b5, b6, b7]"
  by (simp add: decode_def debug_floats_def getFloat32_ok_def unshuffle_loop_def
      copy_remainder_def rd_def upt_small)

text \<open>
  Claim C1 says that \<^verbatim>\<open>decode\<close> produces the unshuffled buffer for every buffer and
  every element size from 1. With element size 1 and the one-byte buffer \<open>[7]\<close>,
  \<^verbatim>\<open>numElems\<close> is 1 and the first logged read, \<^verbatim>\<open>getFloat32(0, true)\<close>, needs four bytes
  of a view that has one: \<^verbatim>\<open>decode\<close> throws a \<^verbatim>\<open>RangeError\<close> and produces no buffer.
\<close>

theorem decode_short_buffer_throws: "decode 1 [7] = Inl RangeError"
  by (simp add: decode_def debug_floats_def getFloat32_ok_def)

text \<open>
  Claim C2 says that decoding what \<^verbatim>\<open>encode\<close> returned gives the buffer back, for
  every buffer and every element size from 1. With element size 1 and the buffer
  \<open>[7]\<close>, \<^verbatim>\<open>encode\<close> returns \<open>[7]\<close> and \<^verbatim>\<open>decode\<close> of it throws. The example of the
  claim holds: with element size 4 the eight bytes \<open>b0 \<dots> b7\<close> encode to
  \<open>b0, b4, b1, b5, b2, b6, b3, b7\<close>, and the round trip returns them.
\<close>

theorem roundtrip_short_buffer_throws:
  "roundtrip 1 [7] = Inl RangeError
   \<and> encode 4 [b0, b1, b2, b3, b4, b5, b6, b7] = Inr [b0, b4, b1, b5, b2, b6, b3, b7]
   \<and> roundtrip 4 [b0, b1, b2, b3, b4, b5, b6, b7] = Inr [b0, b1, b2, b3, b4, b5, b6, b7]"
  by (simp add: roundtrip_def encode_eq decode_eq encode_two_elements decode_two_elements
      del: One_nat_def)

section \<open>Time codec: supporting facts\<close>

text \<open>
  \<open>YearFromDay\<close> is the year of the day: the year starts on or before the day and
  the next year after it. A run of digits always parses.
\<close>

lemma yearDown_le: "DayFromYear (yearDown y d) \<le> d"
proof (induction y d rule: yearDown.induct)
  case (1 y d)
  then show ?case by (subst yearDown.simps) simp
qed

lemma yearUp_bounds:
  "DayFromYear y \<le> d \<Longrightarrow>
     DayFromYear (yearUp y d) \<le> d \<and> d < DayFromYear (yearUp y d + 1)"
proof (induction y d rule: yearUp.induct)
  case (1 y d)
  then show ?case by (subst (1 2) yearUp.simps) simp
qed

lemma YearFromDay_bounds:
  "DayFromYear (YearFromDay d) \<le> d \<and> d < DayFromYear (YearFromDay d + 1)"
  unfolding YearFromDay_def by (rule yearUp_bounds) (rule yearDown_le)

lemma digits_not_space: "isDigit c \<Longrightarrow> \<not> isSpace c"
  by (auto simp: isDigit_def isSpace_def)

lemma digits_not_sign: "isDigit c \<Longrightarrow> c \<noteq> CHR ''-'' \<and> c \<noteq> CHR ''+''"
  by (auto simp: isDigit_def)

lemma parseInt10_digits:
  assumes "run \<noteq> []" "list_all isDigit run"
  shows "parseInt10 run = Some (digitsValue run)"
proof -
  obtain c cs where run: "run = c # cs" using assms(1) by (cases run) auto
  have c: "isDigit c" using assms(2) run by simp
  have t: "takeWhile isDigit run = run" using assms(2) by (simp add: list_all_iff)
  have d: "dropWhile isSpace run = run" using run c digits_not_space by simp
  show ?thesis
    unfolding parseInt10_def d
    using digits_not_sign [OF c] t assms(1) by (simp add: run)
qed

lemma matchDigits_parse:
  assumes "matchDigits k s = Some (run, rest)"
  shows "parseInt10 run = Some (digitsValue run)"
proof -
  from assms have r: "run = take k (takeWhile isDigit s)" "run \<noteq> []"
    by (auto simp: matchDigits_def Let_def split: if_splits)
  have "set run \<subseteq> set (takeWhile isDigit s)" unfolding r(1) by (rule set_take_subset)
  then have "list_all isDigit run"
    by (auto simp: list_all_iff dest: set_takeWhileD)
  then show ?thesis using r(2) by (rule parseInt10_digits [rotated])
qed

text \<open>The least and greatest valid year, and the closest-label loop.\<close>

lemma validYears_Nil [simp]: "validYears [] = []"
  by (simp add: validYears_def map_filter_simps)

lemma validYears_Cons:
  "validYears (l # ls) = (case yearFromLabel l of None \<Rightarrow> validYears ls | Some y \<Rightarrow> y # validYears ls)"
  by (simp add: validYears_def map_filter_simps split: option.splits)

lemma set_validYears:
  "set (validYears ls) = {y. \<exists>k<length ls. yearFromLabel (ls ! k) = Some y}"
proof (induction ls)
  case Nil
  then show ?case by simp
next
  case (Cons l ls)
  have "{y. \<exists>k<length (l # ls). yearFromLabel ((l # ls) ! k) = Some y} =
        {y. yearFromLabel l = Some y} \<union> {y. \<exists>k<length ls. yearFromLabel (ls ! k) = Some y}"
    by (auto simp: less_Suc_eq_0_disj)
  then show ?case using Cons.IH by (auto simp: validYears_Cons split: option.splits)
qed

lemma yearBounds_fin:
  "yearBounds ls (Fin a, Fin b) =
     (Fin (Min (insert a (set (validYears ls)))), Fin (Max (insert b (set (validYears ls)))))"
proof (induction ls arbitrary: a b)
  case Nil
  then show ?case by simp
next
  case (Cons l ls)
  show ?case
  proof (cases "yearFromLabel l")
    case None
    then show ?thesis using Cons.IH by (simp add: validYears_Cons)
  next
    case (Some y)
    have step: "yearBounds (l # ls) (Fin a, Fin b) = yearBounds ls (Fin (min y a), Fin (max y b))"
      using Some by (simp add: min_def max_def)
    have v: "set (validYears (l # ls)) = insert y (set (validYears ls))"
      using Some by (simp add: validYears_Cons)
    have "Min (insert (min y a) (set (validYears ls))) = Min (insert a (insert y (set (validYears ls))))"
      by (cases "set (validYears ls) = {}") (simp_all add: min.assoc min.commute)
    moreover
    have "Max (insert (max y b) (set (validYears ls))) = Max (insert b (insert y (set (validYears ls))))"
      by (cases "set (validYears ls) = {}") (simp_all add: max.assoc max.commute)
    ultimately show ?thesis
      unfolding step v Cons.IH by simp
  qed
qed

lemma yearBounds_init:
  "yearBounds ls (Infinity, NegInfinity) =
     (if validYears ls = [] then (Infinity, NegInfinity)
      else (Fin (Min (set (validYears ls))), Fin (Max (set (validYears ls)))))"
proof (induction ls)
  case Nil
  then show ?case by simp
next
  case (Cons l ls)
  show ?case
  proof (cases "yearFromLabel l")
    case None
    then show ?thesis using Cons.IH by (simp add: validYears_Cons)
  next
    case (Some y)
    then show ?thesis by (simp add: validYears_Cons yearBounds_fin)
  qed
qed

lemma findIndexForYear_None_iff:
  "findIndexForYear labels (Some t) = None \<longleftrightarrow>
     (validYears labels = [] \<or> t < Min (set (validYears labels)) \<or> Max (set (validYears labels)) < t)"
  by (cases "labels = []") (simp_all add: findIndexForYear_def yearBounds_init)

lemma xless_chain: "xless a b \<Longrightarrow> \<not> xless c b \<Longrightarrow> xless a c"
  by (cases a; cases b; cases c) auto

lemma xless_trans: "xless a b \<Longrightarrow> xless b c \<Longrightarrow> xless a c"
  by (cases a; cases b; cases c) auto

lemma noCloser_Nil [simp]: "noCloser [] t bd"
  by (simp add: noCloser_def)

lemma noCloser_Cons:
  "noCloser (l # ls) t bd \<longleftrightarrow>
     (\<forall>y. yearFromLabel l = Some y \<longrightarrow> \<not> xless (Fin \<bar>y - t\<bar>) bd) \<and> noCloser ls t bd"
  unfolding noCloser_def by (simp add: All_less_Suc2)

lemma firstClosest_0:
  "firstClosest (l # ls) t 0 \<longleftrightarrow>
     (\<exists>y. yearFromLabel l = Some y \<and> noCloser ls t (Fin \<bar>y - t\<bar>))"
  unfolding firstClosest_def noCloser_def
  by (simp add: All_less_Suc2 not_less) fastforce

lemma firstClosest_Suc:
  "firstClosest (l # ls) t (Suc j) \<longleftrightarrow>
     (\<exists>y. yearFromLabel (ls ! j) = Some y \<and> firstClosest ls t j \<and>
          (\<forall>y0. yearFromLabel l = Some y0 \<longrightarrow> \<bar>y - t\<bar> < \<bar>y0 - t\<bar>))"
  unfolding firstClosest_def
  by (simp add: All_less_Suc2) (fastforce simp: less_imp_le)

lemma closest_cases:
  "closest ls i (Some t) (bi, bd) = (bi', bd') \<Longrightarrow>
     (bi' = bi \<and> bd' = bd \<and> noCloser ls t bd)
   \<or> (\<exists>j y. bi' = i + j \<and> firstClosest ls t j \<and> xless bd' bd \<and>
            yearFromLabel (ls ! j) = Some y \<and> bd' = Fin \<bar>y - t\<bar>)"
proof (induction ls arbitrary: i bi bd)
  case Nil
  then show ?case by simp
next
  case (Cons l ls)
  show ?case
  proof (cases "yearFromLabel l")
    case None
    with Cons.prems have "closest ls (Suc i) (Some t) (bi, bd) = (bi', bd')" by simp
    from Cons.IH [OF this] show ?thesis
    proof
      assume "bi' = bi \<and> bd' = bd \<and> noCloser ls t bd"
      then show ?thesis using None by (simp add: noCloser_Cons)
    next
      assume "\<exists>j y. bi' = Suc i + j \<and> firstClosest ls t j \<and> xless bd' bd \<and>
            yearFromLabel (ls ! j) = Some y \<and> bd' = Fin \<bar>y - t\<bar>"
      then obtain j y where j: "bi' = Suc i + j" "firstClosest ls t j" "xless bd' bd"
        "yearFromLabel (ls ! j) = Some y" "bd' = Fin \<bar>y - t\<bar>" by blast
      have "firstClosest (l # ls) t (Suc j)"
        using j(2,4) None by (simp add: firstClosest_Suc)
      moreover have "bi' = i + Suc j" using j(1) by simp
      moreover have "yearFromLabel ((l # ls) ! Suc j) = Some y" using j(4) by simp
      ultimately show ?thesis using j(3,5) by blast
    qed
  next
    case (Some y0)
    show ?thesis
    proof (cases "xless (Fin \<bar>y0 - t\<bar>) bd")
      case True
      with Some Cons.prems have "closest ls (Suc i) (Some t) (i, Fin \<bar>y0 - t\<bar>) = (bi', bd')"
        by simp
      from Cons.IH [OF this] show ?thesis
      proof
        assume a: "bi' = i \<and> bd' = Fin \<bar>y0 - t\<bar> \<and> noCloser ls t (Fin \<bar>y0 - t\<bar>)"
        then have "firstClosest (l # ls) t 0" using Some by (simp add: firstClosest_0)
        moreover have "bi' = i + 0" using a by simp
        moreover have "yearFromLabel ((l # ls) ! 0) = Some y0" using Some by simp
        ultimately show ?thesis using a True by blast
      next
        assume "\<exists>j y. bi' = Suc i + j \<and> firstClosest ls t j \<and> xless bd' (Fin \<bar>y0 - t\<bar>) \<and>
            yearFromLabel (ls ! j) = Some y \<and> bd' = Fin \<bar>y - t\<bar>"
        then obtain j y where j: "bi' = Suc i + j" "firstClosest ls t j"
          "xless bd' (Fin \<bar>y0 - t\<bar>)"
          "yearFromLabel (ls ! j) = Some y" "bd' = Fin \<bar>y - t\<bar>" by blast
        have "\<bar>y - t\<bar> < \<bar>y0 - t\<bar>" using j(3,5) by simp
        then have "firstClosest (l # ls) t (Suc j)"
          using j(2,4) Some by (simp add: firstClosest_Suc)
        moreover have "bi' = i + Suc j" using j(1) by simp
        moreover have "yearFromLabel ((l # ls) ! Suc j) = Some y" using j(4) by simp
        moreover have "xless bd' bd" by (rule xless_trans [OF j(3) True])
        ultimately show ?thesis using j(5) by blast
      qed
    next
      case False
      with Some Cons.prems have "closest ls (Suc i) (Some t) (bi, bd) = (bi', bd')" by simp
      from Cons.IH [OF this] show ?thesis
      proof
        assume "bi' = bi \<and> bd' = bd \<and> noCloser ls t bd"
        then show ?thesis using Some False by (simp add: noCloser_Cons)
      next
        assume "\<exists>j y. bi' = Suc i + j \<and> firstClosest ls t j \<and> xless bd' bd \<and>
            yearFromLabel (ls ! j) = Some y \<and> bd' = Fin \<bar>y - t\<bar>"
        then obtain j y where j: "bi' = Suc i + j" "firstClosest ls t j" "xless bd' bd"
          "yearFromLabel (ls ! j) = Some y" "bd' = Fin \<bar>y - t\<bar>" by blast
        have "xless bd' (Fin \<bar>y0 - t\<bar>)" by (rule xless_chain [OF j(3) False])
        then have "\<bar>y - t\<bar> < \<bar>y0 - t\<bar>" using j(5) by simp
        then have "firstClosest (l # ls) t (Suc j)"
          using j(2,4) Some by (simp add: firstClosest_Suc)
        moreover have "bi' = i + Suc j" using j(1) by simp
        moreover have "yearFromLabel ((l # ls) ! Suc j) = Some y" using j(4) by simp
        ultimately show ?thesis using j(3,5) by blast
      qed
    qed
  qed
qed

lemma noCloser_Infinity: "noCloser ls t Infinity \<longleftrightarrow> validYears ls = []"
proof (induction ls)
  case Nil
  then show ?case by (simp add: validYears_def map_filter_simps)
next
  case (Cons l ls)
  then show ?case
    by (auto simp: noCloser_Cons validYears_def map_filter_simps split: option.splits)
qed

lemma closest_init:
  assumes "validYears ls \<noteq> []"
  shows "firstClosest ls t (fst (closest ls 0 (Some t) (0, Infinity)))"
proof -
  obtain bi' bd' where r: "closest ls 0 (Some t) (0, Infinity) = (bi', bd')" by force
  from closest_cases [OF r] assms have "firstClosest ls t bi'"
    by (auto simp: noCloser_Infinity)
  then show ?thesis by (simp add: r)
qed

section \<open>Time codec: the claims\<close>



text \<open>
  For an integer target year, an index that \<^verbatim>\<open>findIndexForYear\<close> returns lies inside
  the label list, and the label there parses to a valid year.
\<close>

lemma findIndexForYear_in_bounds:
  "findIndexForYear labels (Some t) = Some i \<Longrightarrow>
     i < length labels \<and> (\<exists>y. yearFromLabel (labels ! i) = Some y)"
proof -
  assume a: "findIndexForYear labels (Some t) = Some i"
  then have v: "validYears labels \<noteq> []" using findIndexForYear_None_iff [of labels t] by auto
  from a have "i = fst (closest labels 0 (Some t) (0, Infinity))"
    by (auto simp: findIndexForYear_def split: if_splits prod.splits)
  then have "firstClosest labels t i" using closest_init [OF v] by simp
  then show ?thesis unfolding firstClosest_def by blast
qed

text \<open>
  Claim C10 says that whenever \<^verbatim>\<open>findIndexForYear\<close> returns an index, the label at
  that index parses to a valid year. With the target year \<^verbatim>\<open>NaN\<close>, which
  \<^verbatim>\<open>loadPanelData\<close> stores as the target when the label it reads the year from does
  not parse, and the labels \<^verbatim>\<open>n/a\<close> and \<^verbatim>\<open>2020-01-01\<close>, the range test passes, no
  label improves on the initial best index, and the index 0 is returned: the label
  there has no valid year.
\<close>

theorem findIndexForYear_nan_target:
  "findIndexForYear [''n/a'', ''2020-01-01''] None = Some 0
   \<and> yearFromLabel ([''n/a'', ''2020-01-01''] ! 0) = None"
  by code_simp

theorem findIndexForYear_nan_target_witness:
  "findIndexForYear [''n/a'', ''2020-01-01''] None = Some 0"
  using findIndexForYear_nan_target by simp

lemma parse_days_since_2005:
  "parseTimeUnits (Some ''days since 2005-1-1'') (Some ''365_day'') =
     Some (Encoding \<lparr>toDays = 1, epochYear = 2005, epochMonth = 1, epochDay = 1,
                      calendar = Day365\<rparr>)"
  by code_simp

lemma parse_days_since_2000:
  "parseTimeUnits (Some ''days since 2000-1-1'') (Some ''standard'') =
     Some (Encoding \<lparr>toDays = 1, epochYear = 2000, epochMonth = 1, epochDay = 1,
                      calendar = Standard\<rparr>)"
  by code_simp

lemma decode_noleap_365:
  "decodeTimeValue 365 (Encoding \<lparr>toDays = 1, epochYear = 2005, epochMonth = 1,
      epochDay = 1, calendar = Day365\<rparr>) = ''2006-01-01''"
  by code_simp

lemma decode_standard_60:
  "decodeTimeValue 60 (Encoding \<lparr>toDays = 1, epochYear = 2000, epochMonth = 1,
      epochDay = 1, calendar = Standard\<rparr>) = ''2000-03-01''"
  by code_simp

lemma decode_standard_59:
  "decodeTimeValue 59 (Encoding \<lparr>toDays = 1, epochYear = 2000, epochMonth = 1,
      epochDay = 1, calendar = Standard\<rparr>) = ''2000-02-29''"
  by code_simp

text \<open>
  Claim C4. Under the units \<^verbatim>\<open>days since 2005-1-1\<close> with calendar \<^verbatim>\<open>365_day\<close> the raw
  value 365 decodes to the label 2006-01-01; under \<^verbatim>\<open>days since 2000-1-1\<close> with
  calendar \<^verbatim>\<open>standard\<close> the value 60 decodes to 2000-03-01 and the value 59 to
  2000-02-29.
\<close>

theorem decodeTimeValue_examples:
  "map_option (decodeTimeValue 365)
      (parseTimeUnits (Some ''days since 2005-1-1'') (Some ''365_day'')) = Some ''2006-01-01''
   \<and> map_option (decodeTimeValue 60)
      (parseTimeUnits (Some ''days since 2000-1-1'') (Some ''standard'')) = Some ''2000-03-01''
   \<and> map_option (decodeTimeValue 59)
      (parseTimeUnits (Some ''days since 2000-1-1'') (Some ''standard'')) = Some ''2000-02-29''"
  by (simp add: parse_days_since_2005 parse_days_since_2000 decode_noleap_365
      decode_standard_60 decode_standard_59)

section \<open>Hierarchy discovery: the two scenarios\<close>

lemma discover_depth1:
  assumes "listChildren st (orEmpty gp) = Some [A]"
    and "listChildren st (joinPath (orEmpty gp) A) = Some [B]"
    and "listChildren st (joinPath (orEmpty gp) A @ ''/'' @ B) = Some []
         \<or> listChildren st (joinPath (orEmpty gp) A @ ''/'' @ B) = None"
  shows "discoverHierarchy st gp = Inr ([], [''_root'' \<mapsto> [A]], filter notCoord [B], 1)"
  using assms by (auto simp: discoverHierarchy_def isGroup_def Let_def)

lemma discover_depth2:
  assumes "listChildren st (orEmpty gp) = Some [modelX]"
    and "listChildren st (joinPath (orEmpty gp) modelX) = Some [expY]"
    and "listChildren st (joinPath (orEmpty gp) modelX @ ''/'' @ expY) = Some [var1, var2]"
  shows "discoverHierarchy st gp =
           Inr ([modelX], [modelX \<mapsto> [expY]],
                spatialArrays st (joinPath (orEmpty gp) modelX @ ''/'' @ expY)
                  (filter notCoord [var1, var2]), 2)"
  using assms by (simp add: discoverHierarchy_def isGroup_def Let_def)

lemma spatialArrays_subset: "set (spatialArrays st path names) \<subseteq> set names"
  by (auto simp: spatialArrays_def)

lemma storeAB_discovered: "discoverHierarchy storeAB (Some ''combined'') = Inr ([], [''_root'' \<mapsto> [''A'']], [''B''], 1)"
proof -
  have "filter notCoord [''B''] = [''B'']" by code_simp
  then show ?thesis
  using discover_depth1 [of storeAB "Some ''combined''" "''A''" "''B''"]
  by (simp add: storeAB_def orEmpty_def joinPath_def)
qed

lemma storeModelExp_discovered: "discoverHierarchy storeModelExp (Some ''combined'') = Inr ([''modelX''], [''modelX'' \<mapsto> [''expY'']], [''var1''], 2)"
proof -
  have "filter notCoord [''var1'', ''var2''] = [''var1'', ''var2'']" by code_simp
  then show ?thesis
  using discover_depth2 [of storeModelExp "Some ''combined''" "''modelX''" "''expY''" "''var1''" "''var2''"]
  by (simp add: storeModelExp_def orEmpty_def joinPath_def spatialArrays_def)
qed

text \<open>
  The names of \<^verbatim>\<open>COORD_NAMES\<close> are in lower case. The two scenarios, for any set of
  lower-case names that the filter of the source tests against.
\<close>

lemma coord_names_lower: "\<forall>v \<in> COORD_NAMES. toLowerCase v = v"
  unfolding COORD_NAMES_def by code_simp

lemma scenarios_general:
  assumes n: "notCoord = (\<lambda>v. toLowerCase v \<notin> C)"
    and low: "\<forall>v \<in> C. toLowerCase v = v"
  shows "(listChildren st (orEmpty gp) = Some [A]
      \<and> listChildren st (joinPath (orEmpty gp) A) = Some [B]
      \<and> (listChildren st (joinPath (orEmpty gp) A @ ''/'' @ B) = Some []
           \<or> listChildren st (joinPath (orEmpty gp) A @ ''/'' @ B) = None)
     \<longrightarrow> discoverHierarchy st gp
           = Inr ([], [''_root'' \<mapsto> [A]], filter (\<lambda>v. toLowerCase v \<notin> C) [B], 1))
    \<and> (listChildren st (orEmpty gp) = Some [modelX]
      \<and> listChildren st (joinPath (orEmpty gp) modelX) = Some [expY]
      \<and> listChildren st (joinPath (orEmpty gp) modelX @ ''/'' @ expY) = Some [var1, var2]
     \<longrightarrow> (\<exists>vars. discoverHierarchy st gp = Inr ([modelX], [modelX \<mapsto> [expY]], vars, 2)
            \<and> vars = filter (\<lambda>v. toLowerCase v \<notin> C
                          \<and> (\<exists>shape. openArray st (joinPath (orEmpty gp) modelX @ ''/'' @ expY
                                                     @ ''/'' @ v) = Some shape
                                      \<and> 2 \<le> length shape))
                        [var1, var2]
            \<and> (\<forall>v \<in> set vars. v \<in> {var1, var2} \<and> v \<notin> C)))"
proof (intro conjI impI)
  assume "listChildren st (orEmpty gp) = Some [A]
      \<and> listChildren st (joinPath (orEmpty gp) A) = Some [B]
      \<and> (listChildren st (joinPath (orEmpty gp) A @ ''/'' @ B) = Some []
           \<or> listChildren st (joinPath (orEmpty gp) A @ ''/'' @ B) = None)"
  then have "discoverHierarchy st gp = Inr ([], [''_root'' \<mapsto> [A]], filter notCoord [B], 1)"
    using discover_depth1 [of st gp A B] by blast
  then show "discoverHierarchy st gp
           = Inr ([], [''_root'' \<mapsto> [A]], filter (\<lambda>v. toLowerCase v \<notin> C) [B], 1)"
    unfolding n .
next
  assume a: "listChildren st (orEmpty gp) = Some [modelX]
      \<and> listChildren st (joinPath (orEmpty gp) modelX) = Some [expY]
      \<and> listChildren st (joinPath (orEmpty gp) modelX @ ''/'' @ expY) = Some [var1, var2]"
  let ?sp = "joinPath (orEmpty gp) modelX @ ''/'' @ expY"
  let ?P = "\<lambda>v. toLowerCase v \<notin> C
                          \<and> (\<exists>shape. openArray st (joinPath (orEmpty gp) modelX @ ''/'' @ expY
                                                     @ ''/'' @ v) = Some shape
                                      \<and> 2 \<le> length shape)"
  let ?vars = "filter ?P [var1, var2]"
  have d: "discoverHierarchy st gp = Inr ([modelX], [modelX \<mapsto> [expY]],
            spatialArrays st ?sp (filter notCoord [var1, var2]), 2)"
    using a discover_depth2 [of st gp modelX expY var1 var2] by blast
  have e: "spatialArrays st ?sp (filter notCoord [var1, var2]) = ?vars"
    unfolding n spatialArrays_def filter_filter
    by (rule filter_cong) (auto simp: append_assoc split: option.splits)
  have m: "\<forall>v \<in> set ?vars. v \<in> {var1, var2} \<and> v \<notin> C"
  proof
    fix v assume v: "v \<in> set ?vars"
    then have "?P v" unfolding set_filter by (rule CollectE) (rule conjunct2)
    then have "toLowerCase v \<notin> C" by blast
    then have "v \<notin> C" using low by metis
    moreover have "set ?vars \<subseteq> set [var1, var2]" by (rule filter_is_subset)
    then have "v \<in> {var1, var2}" using v by auto
    ultimately show "v \<in> {var1, var2} \<and> v \<notin> C" by blast
  qed
  show "\<exists>vars. discoverHierarchy st gp = Inr ([modelX], [modelX \<mapsto> [expY]], vars, 2)
            \<and> vars = ?vars \<and> (\<forall>v \<in> set vars. v \<in> {var1, var2} \<and> v \<notin> C)"
    using d e m by (simp only:) blast
qed
section \<open>Hierarchy discovery: the claim\<close>

text \<open>
  Claim C6. On a store whose base path lists the one child \<open>A\<close>, where \<open>A\<close> lists
  the one child \<open>B\<close> and listing the children of \<open>B\<close> gives nothing or fails,
  discovery reports depth 1: no models, the groups of the base path under the one key
  \<^verbatim>\<open>_root\<close>, and \<open>B\<close> as the one variable unless its name in lower case is a
  coordinate name. On a store shaped base, \<open>modelX\<close>, \<open>expY\<close>, \<open>var1\<close> and
  \<open>var2\<close>, it reports depth 2, the models \<open>[modelX]\<close>, the experiments of
  \<open>modelX\<close> as \<open>[expY]\<close>, and as variables exactly those of \<open>var1\<close> and
  \<open>var2\<close> whose name in lower case is none of the nineteen coordinate and bookkeeping
  names and whose array opens with rank 2 or more; no variable is one of those names.
\<close>

theorem discoverHierarchy_scenarios:
  "(let coords = {''x'', ''y'', ''lat'', ''lon'', ''latitude'', ''longitude'',
                  ''time'', ''t'', ''bnds'', ''bounds'', ''time_bnds'', ''time_bounds'',
                  ''x_bnds'', ''y_bnds'', ''lat_bnds'', ''lon_bnds'',
                  ''mapping'', ''crs'', ''spatial_ref''}
    in
    (listChildren st (orEmpty gp) = Some [A]
      \<and> listChildren st (joinPath (orEmpty gp) A) = Some [B]
      \<and> (listChildren st (joinPath (orEmpty gp) A @ ''/'' @ B) = Some []
           \<or> listChildren st (joinPath (orEmpty gp) A @ ''/'' @ B) = None)
     \<longrightarrow> discoverHierarchy st gp
           = Inr ([], [''_root'' \<mapsto> [A]], filter (\<lambda>v. toLowerCase v \<notin> coords) [B], 1))
    \<and> (listChildren st (orEmpty gp) = Some [modelX]
      \<and> listChildren st (joinPath (orEmpty gp) modelX) = Some [expY]
      \<and> listChildren st (joinPath (orEmpty gp) modelX @ ''/'' @ expY) = Some [var1, var2]
     \<longrightarrow> (\<exists>vars. discoverHierarchy st gp = Inr ([modelX], [modelX \<mapsto> [expY]], vars, 2)
            \<and> vars = filter (\<lambda>v. toLowerCase v \<notin> coords
                          \<and> (\<exists>shape. openArray st (joinPath (orEmpty gp) modelX @ ''/'' @ expY
                                                     @ ''/'' @ v) = Some shape
                                      \<and> 2 \<le> length shape))
                        [var1, var2]
            \<and> (\<forall>v \<in> set vars. v \<in> {var1, var2} \<and> v \<notin> coords))))"
  unfolding Let_def
proof (rule scenarios_general)
  show "notCoord = (\<lambda>v. toLowerCase v \<notin> {''x'', ''y'', ''lat'', ''lon'', ''latitude'', ''longitude'',
                  ''time'', ''t'', ''bnds'', ''bounds'', ''time_bnds'', ''time_bounds'',
                  ''x_bnds'', ''y_bnds'', ''lat_bnds'', ''lon_bnds'',
                  ''mapping'', ''crs'', ''spatial_ref''})"
    by (rule ext) (simp only: notCoord_def COORD_NAMES_def)
  show "\<forall>v \<in> {''x'', ''y'', ''lat'', ''lon'', ''latitude'', ''longitude'',
                  ''time'', ''t'', ''bnds'', ''bounds'', ''time_bnds'', ''time_bounds'',
                  ''x_bnds'', ''y_bnds'', ''lat_bnds'', ''lon_bnds'',
                  ''mapping'', ''crs'', ''spatial_ref''}. toLowerCase v = v"
    using coord_names_lower unfolding COORD_NAMES_def .
qed

text \<open>
  The two scenarios on four stores: \<open>B\<close> without children, \<open>B\<close> whose listing
  throws, two variables of which one is a series of rank 1, and two grids of which one
  is the longitude grid \<open>LON\<close>, which is left out for its name.
\<close>

theorem discoverHierarchy_scenarios_witness:
  "discoverHierarchy storeAB (Some ''combined'') = Inr ([], [''_root'' \<mapsto> [''A'']], [''B''], 1)
   \<and> discoverHierarchy storeABthrows (Some ''combined'')
        = Inr ([], [''_root'' \<mapsto> [''A'']], [''B''], 1)
   \<and> discoverHierarchy storeModelExp (Some ''combined'')
        = Inr ([''modelX''], [''modelX'' \<mapsto> [''expY'']], [''var1''], 2)
   \<and> discoverHierarchy storeCoords (Some ''combined'')
        = Inr ([''modelX''], [''modelX'' \<mapsto> [''expY'']], [''lithk''], 2)"
proof -
  have c: "toLowerCase ''B'' \<notin> COORD_NAMES" "toLowerCase ''var1'' \<notin> COORD_NAMES"
    "toLowerCase ''var2'' \<notin> COORD_NAMES" "toLowerCase ''LON'' \<in> COORD_NAMES"
    "toLowerCase ''lithk'' \<notin> COORD_NAMES"
    by code_simp+
  have h1: "listChildren storeAB (orEmpty (Some ''combined'')) = Some [''A'']
      \<and> listChildren storeAB (joinPath (orEmpty (Some ''combined'')) ''A'') = Some [''B'']
      \<and> (listChildren storeAB (joinPath (orEmpty (Some ''combined'')) ''A'' @ ''/'' @ ''B'') = Some []
           \<or> listChildren storeAB (joinPath (orEmpty (Some ''combined'')) ''A'' @ ''/'' @ ''B'') = None)"
    by (simp add: storeAB_def orEmpty_def joinPath_def)
  have h2: "listChildren storeABthrows (orEmpty (Some ''combined'')) = Some [''A'']
      \<and> listChildren storeABthrows (joinPath (orEmpty (Some ''combined'')) ''A'') = Some [''B'']
      \<and> (listChildren storeABthrows (joinPath (orEmpty (Some ''combined'')) ''A'' @ ''/'' @ ''B'') = Some []
           \<or> listChildren storeABthrows (joinPath (orEmpty (Some ''combined'')) ''A'' @ ''/'' @ ''B'') = None)"
    by (simp add: storeABthrows_def orEmpty_def joinPath_def)
  have h3: "listChildren storeModelExp (orEmpty (Some ''combined'')) = Some [''modelX'']
      \<and> listChildren storeModelExp (joinPath (orEmpty (Some ''combined'')) ''modelX'') = Some [''expY'']
      \<and> listChildren storeModelExp (joinPath (orEmpty (Some ''combined'')) ''modelX'' @ ''/'' @ ''expY'')
          = Some [''var1'', ''var2'']"
    by (simp add: storeModelExp_def orEmpty_def joinPath_def)
  have h4: "listChildren storeCoords (orEmpty (Some ''combined'')) = Some [''modelX'']
      \<and> listChildren storeCoords (joinPath (orEmpty (Some ''combined'')) ''modelX'') = Some [''expY'']
      \<and> listChildren storeCoords (joinPath (orEmpty (Some ''combined'')) ''modelX'' @ ''/'' @ ''expY'')
          = Some [''LON'', ''lithk'']"
    by (simp add: storeCoords_def orEmpty_def joinPath_def)
  have o3: "openArray storeModelExp (joinPath (orEmpty (Some ''combined'')) ''modelX'' @ ''/'' @ ''expY'' @ ''/'' @ ''var1'') = Some [86, 761, 761]"
    "openArray storeModelExp (joinPath (orEmpty (Some ''combined'')) ''modelX'' @ ''/'' @ ''expY'' @ ''/'' @ ''var2'') = Some [86]"
    by (simp_all add: storeModelExp_def orEmpty_def joinPath_def)
  have o4: "openArray storeCoords (joinPath (orEmpty (Some ''combined'')) ''modelX'' @ ''/'' @ ''expY'' @ ''/'' @ ''LON'') = Some [761, 761]"
    "openArray storeCoords (joinPath (orEmpty (Some ''combined'')) ''modelX'' @ ''/'' @ ''expY'' @ ''/'' @ ''lithk'') = Some [86, 761, 761]"
    by (simp_all add: storeCoords_def orEmpty_def joinPath_def)
  have f1: "filter (\<lambda>v. toLowerCase v \<notin> COORD_NAMES) [''B''] = [''B'']"
    unfolding filter.simps using c(1) by (simp only: simp_thms if_True)
  have f3: "filter (\<lambda>v. toLowerCase v \<notin> COORD_NAMES \<and>
               (\<exists>shape. openArray storeModelExp (joinPath (orEmpty (Some ''combined'')) ''modelX''
                    @ ''/'' @ ''expY'' @ ''/'' @ v) = Some shape \<and> 2 \<le> length shape))
          [''var1'', ''var2''] = [''var1'']"
    unfolding filter.simps o3 using c(2,3)
    by (simp only: simp_thms if_False if_True option.inject) simp
  have f4: "filter (\<lambda>v. toLowerCase v \<notin> COORD_NAMES \<and>
               (\<exists>shape. openArray storeCoords (joinPath (orEmpty (Some ''combined'')) ''modelX''
                    @ ''/'' @ ''expY'' @ ''/'' @ v) = Some shape \<and> 2 \<le> length shape))
          [''LON'', ''lithk''] = [''lithk'']"
    unfolding filter.simps o4 using c(4,5)
    by (simp only: simp_thms if_False if_True option.inject) simp
  note t1 = discoverHierarchy_scenarios [of storeAB "Some ''combined''" "''A''" "''B''",
      unfolded Let_def, THEN conjunct1, THEN mp, OF h1, folded COORD_NAMES_def, unfolded f1]
  note t2 = discoverHierarchy_scenarios [of storeABthrows "Some ''combined''" "''A''" "''B''",
      unfolded Let_def, THEN conjunct1, THEN mp, OF h2, folded COORD_NAMES_def, unfolded f1]
  note t3 = discoverHierarchy_scenarios
    [of storeModelExp "Some ''combined''" _ _ "''modelX''" "''expY''" "''var1''" "''var2''",
      unfolded Let_def, THEN conjunct2, THEN mp, OF h3, folded COORD_NAMES_def, unfolded f3]
  note t4 = discoverHierarchy_scenarios
    [of storeCoords "Some ''combined''" _ _ "''modelX''" "''expY''" "''LON''" "''lithk''",
      unfolded Let_def, THEN conjunct2, THEN mp, OF h4, folded COORD_NAMES_def, unfolded f4]
  from t3 have r3: "discoverHierarchy storeModelExp (Some ''combined'')
        = Inr ([''modelX''], [''modelX'' \<mapsto> [''expY'']], [''var1''], 2)"
    by blast
  from t4 have r4: "discoverHierarchy storeCoords (Some ''combined'')
        = Inr ([''modelX''], [''modelX'' \<mapsto> [''expY'']], [''lithk''], 2)"
    by blast
  show ?thesis using t1 t2 r3 r4 by (simp only: simp_thms)
qed
section \<open>The state machine: panel ids\<close>

lemma showNat_nonempty: "showNat n \<noteq> []"
  by (subst showNat.simps) simp

lemma digit_char_inj:
  assumes "a < 10" "b < 10" "char_of (48 + a) = (char_of (48 + b) :: char)"
  shows "a = (b::nat)"
proof -
  have "(of_char (char_of (48 + a) :: char) :: nat) = of_char (char_of (48 + b) :: char)"
    using assms(3) by (rule arg_cong)
  then have "(48 + a) mod 256 = (48 + b) mod 256" by (simp only: of_char_of)
  then show ?thesis using assms(1,2) by simp
qed

lemma showNat_inj: "showNat n = showNat m \<Longrightarrow> n = m"
proof (induction n arbitrary: m rule: showNat.induct)
  case (1 n)
  show ?case
  proof (cases "n < 10")
    case True
    then have sn: "showNat n = [char_of (48 + n)]" by (subst showNat.simps) simp
    show ?thesis
    proof (cases "m < 10")
      case mt: True
      then have "showNat m = [char_of (48 + m)]" by (subst showNat.simps) simp
      with sn "1.prems" show ?thesis using digit_char_inj [OF True mt] by simp
    next
      case False
      then have "showNat m = showNat (m div 10) @ [char_of (48 + m mod 10)]"
        by (subst showNat.simps) simp
      with sn "1.prems" showNat_nonempty [of "m div 10"] show ?thesis by simp
    qed
  next
    case False
    then have sn: "showNat n = showNat (n div 10) @ [char_of (48 + n mod 10)]"
      by (subst showNat.simps) simp
    show ?thesis
    proof (cases "m < 10")
      case True
      then have "showNat m = [char_of (48 + m)]" by (subst showNat.simps) simp
      with sn "1.prems" showNat_nonempty [of "n div 10"] show ?thesis by simp
    next
      case mf: False
      then have "showNat m = showNat (m div 10) @ [char_of (48 + m mod 10)]"
        by (subst showNat.simps) simp
      with sn "1.prems" have eq: "showNat (n div 10) = showNat (m div 10)"
        and ch: "char_of (48 + n mod 10) = (char_of (48 + m mod 10) :: char)" by simp_all
      have d: "n div 10 = m div 10" using "1.IH" [OF False eq] .
      have "n mod 10 = m mod 10" by (rule digit_char_inj [OF _ _ ch]) simp_all
      with d show ?thesis by (metis div_mult_mod_eq)
    qed
  qed
qed

lemma panelName_inj [simp]: "panelName a = panelName b \<longleftrightarrow> a = b"
  by (auto simp: panelName_def dest: showNat_inj)

lemma updatePanel_ids:
  assumes "\<And>p. panelId (f p) = panelId p"
  shows "map panelId (updatePanel pid f ps) = map panelId ps"
  by (induction ps) (simp_all add: updatePanel_def assms)

lemma map_ids:
  assumes "\<And>p. panelId (f p) = panelId p"
  shows "map panelId (map f ps) = map panelId ps"
  by (induction ps) (simp_all add: assms)

lemma invariant_same_ids:
  assumes "panelsInvariant s"
    and "map panelId (panels s') = map panelId (panels s)"
    and "panelIdCounter s' = panelIdCounter s"
  shows "panelsInvariant s'"
proof -
  have "panels s' \<noteq> []" using assms(1,2) unfolding panelsInvariant_def
    by (metis map_is_Nil_conv)
  then show ?thesis using assms unfolding panelsInvariant_def by simp
qed

lemma handedOut_mono: "handedOut ids c \<Longrightarrow> c \<le> c' \<Longrightarrow> handedOut ids c'"
  unfolding handedOut_def by (meson le_trans)

lemma createEmptyPanel_id:
  "createEmptyPanel c = (p, c') \<Longrightarrow> panelId p = panelName (Suc c) \<and> c' = Suc c"
  by (auto simp: createEmptyPanel_def)

lemma fresh_not_handedOut:
  assumes "handedOut ids c" "c < k"
  shows "panelName k \<notin> set ids"
proof
  assume "panelName k \<in> set ids"
  then obtain j where "j \<le> c" "panelName k = panelName j"
    using assms(1) unfolding handedOut_def by blast
  then show False using assms(2) by simp
qed

text \<open>The panels that \<open>panelsFromConfig\<close> creates carry the next counter values.\<close>

lemma panelsFromConfig_ids:
  "panelsFromConfig pcs c = (ps, c') \<Longrightarrow>
     map panelId ps = map panelName [Suc c..<Suc c + length pcs] \<and> c' = c + length pcs"
proof (induction pcs arbitrary: c ps c')
  case Nil
  then show ?case by simp
next
  case (Cons pc pcs)
  obtain ps1 c1 where r: "panelsFromConfig pcs (Suc c) = (ps1, c1)" by force
  from Cons.IH [OF r] have ih: "map panelId ps1 = map panelName [Suc (Suc c)..<Suc (Suc c) + length pcs]"
    "c1 = Suc c + length pcs" by simp_all
  from Cons.prems r have "ps = (fst (createEmptyPanel c))\<lparr>selectedModel := pc_model pc,
      selectedExperiment := pc_experiment pc\<rparr> # ps1" "c' = c1"
    by (simp_all add: createEmptyPanel_def)
  then have m: "map panelId ps = panelName (Suc c) # map panelId ps1" "c' = c1"
    by (simp_all add: createEmptyPanel_def)
  have u: "[Suc c..<Suc c + length (pc # pcs)] = Suc c # [Suc (Suc c)..<Suc (Suc c) + length pcs]"
    by (simp add: upt_conv_Cons del: upt_Suc)
  have "map panelId ps = map panelName [Suc c..<Suc c + length (pc # pcs)]"
    unfolding u m(1) ih(1) by (simp only: list.map)
  moreover have "c' = c + length (pc # pcs)" using m(2) ih(2) by simp
  ultimately show ?case by blast
qed

lemma fresh_run_good:
  assumes "0 < n"
  shows "map panelName [Suc c..<Suc c + n] \<noteq> []
       \<and> distinct (map panelName [Suc c..<Suc c + n])
       \<and> handedOut (map panelName [Suc c..<Suc c + n]) (c + n)"
proof (intro conjI)
  show "map panelName [Suc c..<Suc c + n] \<noteq> []" using assms by simp
  show "distinct (map panelName [Suc c..<Suc c + n])"
    by (simp add: distinct_map inj_on_def)
  show "handedOut (map panelName [Suc c..<Suc c + n]) (c + n)"
    unfolding handedOut_def by auto
qed

lemma initialPanels_good:
  assumes "initialPanels cfg exps c = (ps, c')"
  shows "ps \<noteq> [] \<and> distinct (map panelId ps) \<and> handedOut (map panelId ps) c'"
proof (cases "\<exists>pc pcs. (case cfg of None \<Rightarrow> None | Some c \<Rightarrow> embed_panels c) = Some (pc # pcs)")
  case True
  then obtain pc pcs where e: "(case cfg of None \<Rightarrow> None | Some c \<Rightarrow> embed_panels c) = Some (pc # pcs)"
    by blast
  with assms have "panelsFromConfig (pc # pcs) c = (ps, c')" by (simp add: initialPanels_def)
  from panelsFromConfig_ids [OF this]
  have ids: "map panelId ps = map panelName [Suc c..<Suc c + length (pc # pcs)]"
    and c': "c' = c + length (pc # pcs)" by simp_all
  have "map panelId ps \<noteq> []" unfolding ids by simp
  then have "ps \<noteq> []" by auto
  then show ?thesis using fresh_run_good [of "length (pc # pcs)" c] unfolding ids c' by simp
next
  case False
  then have "map panelId ps = [panelName (Suc c)] \<and> c' = Suc c"
    using assms
    by (auto simp: initialPanels_def createEmptyPanel_def split: option.splits list.splits if_splits)
  then have ids: "map panelId ps = map panelName [Suc c..<Suc c + 1]" and c': "c' = c + 1"
    by simp_all
  have "map panelId ps \<noteq> []" unfolding ids by simp
  then have "ps \<noteq> []" by auto
  then show ?thesis using fresh_run_good [of 1 c] unfolding ids c' by simp
qed

section \<open>The state machine: the panel list\<close>

lemma computeAutoRange_panels [simp]:
  "panels (computeAutoRange s) = panels s" "panelIdCounter (computeAutoRange s) = panelIdCounter s"
  by (simp_all add: computeAutoRange_def Let_def)

lemma applyOverrides_panels [simp]:
  "panels (applyOverrides cfg vars s) = panels s"
  "panelIdCounter (applyOverrides cfg vars s) = panelIdCounter s"
  by (simp_all add: applyOverrides_def Let_def split: option.splits)

lemma clearHover_panels [simp]:
  "panels (clearHover pid s) = panels s" "panelIdCounter (clearHover pid s) = panelIdCounter s"
  by (simp_all add: clearHover_def)

lemma initialState_invariant: "panelsInvariant initialState"
  unfolding panelsInvariant_def initialState_def createEmptyPanel_def handedOut_def
  by simp

lemma initialize_begin_invariant:
  assumes "panelsInvariant s"
  shows "panelsInvariant (initialize_begin cfg s)"
  by (rule invariant_same_ids [OF assms]) (simp_all add: initialize_begin_def Let_def)

lemma initialize_failed_invariant:
  assumes "panelsInvariant s"
  shows "panelsInvariant (initialize_failed msg s)"
  by (rule invariant_same_ids [OF assms]) (simp_all add: initialize_failed_def)

lemma initialize_aborted_invariant:
  assumes "panelsInvariant s"
  shows "panelsInvariant (initialize_aborted k msg s)"
proof -
  have "handedOut (map panelId (panels s)) (panelIdCounter s + k)"
    using assms unfolding panelsInvariant_def by (elim conjE handedOut_mono) simp
  then show ?thesis
    using assms unfolding panelsInvariant_def
    by (simp add: initialize_aborted_def initialize_failed_def)
qed

lemma initialize_complete_invariant:
  assumes "panelsInvariant s"
  shows "panelsInvariant (initialize_complete cfg st grid fill msg s)"
proof (cases "discoverHierarchy st
      (orElse (case cfg of None \<Rightarrow> None | Some c \<Rightarrow> embed_group_path c)
         (orElse (orElse (case cfg of None \<Rightarrow> None | Some c \<Rightarrow> embed_data_view c)
            (Some ''combined'')) (Some ''combined'')))")
  case (Inl e)
  then have "initialize_complete cfg st grid fill msg s = initialize_failed msg s"
    by (simp add: initialize_complete_def Let_def)
  then show ?thesis using initialize_failed_invariant [OF assms] by simp
next
  case (Inr h)
  obtain ms exps vars depth where h: "h = (ms, exps, vars, depth)" by (cases h) auto
  obtain ps c' where ip: "initialPanels cfg exps (panelIdCounter s) = (ps, c')" by force
  have "panels (initialize_complete cfg st grid fill msg s) = ps"
    "panelIdCounter (initialize_complete cfg st grid fill msg s) = c'"
    using Inr h ip by (simp_all add: initialize_complete_def Let_def)
  then show ?thesis using initialPanels_good [OF ip] by (simp add: panelsInvariant_def)
qed

lemma setDataView_begin_invariant:
  assumes "panelsInvariant s"
  shows "panelsInvariant (setDataView_begin view s)"
  by (rule invariant_same_ids [OF assms]) (simp_all add: setDataView_begin_def split: option.splits)

lemma resetPanel_id [simp]: "panelId (resetPanel p) = panelId p"
  by (simp add: resetPanel_def)

lemma handedOut_subset: "handedOut ids c \<Longrightarrow> set ids' \<subseteq> set ids \<Longrightarrow> handedOut ids' c"
  unfolding handedOut_def by blast

lemma setDataView_complete_invariant:
  assumes "panelsInvariant s"
  shows "panelsInvariant (setDataView_complete view cfg st grid fill msg s)"
proof (cases "discoverHierarchy st
      (orElse (case cfg of None \<Rightarrow> None | Some c \<Rightarrow> embed_group_path c) (Some view))")
  case (Inl e)
  then have "panels (setDataView_complete view cfg st grid fill msg s) = panels s"
    "panelIdCounter (setDataView_complete view cfg st grid fill msg s) = panelIdCounter s"
    by (simp_all add: setDataView_complete_def Let_def)
  then show ?thesis by (intro invariant_same_ids [OF assms]) simp_all
next
  case (Inr h)
  obtain ms exps vars depth where h: "h = (ms, exps, vars, depth)" by (cases h) auto
  let ?valid = "map resetPanel (filter (panelValid ms exps) (panels s))"
  have ids: "map panelId ?valid = map panelId (filter (panelValid ms exps) (panels s))"
    by (simp add: map_ids)
  show ?thesis
  proof (cases "?valid = []")
    case True
    then have "panels (setDataView_complete view cfg st grid fill msg s)
                 = [fst (createEmptyPanel (panelIdCounter s))]"
      "panelIdCounter (setDataView_complete view cfg st grid fill msg s) = Suc (panelIdCounter s)"
      using Inr h by (simp_all add: setDataView_complete_def Let_def createEmptyPanel_def)
    then show ?thesis
      unfolding panelsInvariant_def handedOut_def by (auto simp: createEmptyPanel_def)
  next
    case False
    then have p: "panels (setDataView_complete view cfg st grid fill msg s) = ?valid"
      and c: "panelIdCounter (setDataView_complete view cfg st grid fill msg s) = panelIdCounter s"
      using Inr h by (simp_all add: setDataView_complete_def Let_def)
    have "distinct (map panelId (filter (panelValid ms exps) (panels s)))"
      using assms unfolding panelsInvariant_def by (simp add: distinct_map_filter)
    moreover have "handedOut (map panelId (filter (panelValid ms exps) (panels s))) (panelIdCounter s)"
      using assms unfolding panelsInvariant_def
      by (elim conjE handedOut_subset) auto
    ultimately show ?thesis
      unfolding panelsInvariant_def p c ids using False by simp
  qed
qed

lemma addPanel_invariant:
  assumes "panelsInvariant s"
  shows "panelsInvariant (addPanel s)"
proof -
  have ids: "map panelId (panels (addPanel s)) =
               map panelId (panels s) @ [panelName (Suc (panelIdCounter s))]"
    and c: "panelIdCounter (addPanel s) = Suc (panelIdCounter s)"
    by (simp_all add: addPanel_def createEmptyPanel_def Let_def split: list.splits option.splits)
  have h: "handedOut (map panelId (panels s)) (panelIdCounter s)"
    and d: "distinct (map panelId (panels s))"
    using assms by (simp_all add: panelsInvariant_def)
  have fresh: "panelName (Suc (panelIdCounter s)) \<notin> set (map panelId (panels s))"
    by (rule fresh_not_handedOut [OF h]) simp
  have "handedOut (map panelId (panels s) @ [panelName (Suc (panelIdCounter s))])
          (Suc (panelIdCounter s))"
    using handedOut_mono [OF h, of "Suc (panelIdCounter s)"]
    unfolding handedOut_def by auto
  moreover have "panels (addPanel s) \<noteq> []" using ids by auto
  ultimately show ?thesis
    unfolding panelsInvariant_def ids c using d fresh by simp
qed

lemma two_distinct_survive:
  assumes "distinct (map f xs)" "1 < length xs"
  shows "filter (\<lambda>x. f x \<noteq> a) xs \<noteq> []"
proof -
  obtain x y zs where xs: "xs = x # y # zs"
    using assms(2) by (cases xs; cases "tl xs") auto
  then have "f x \<noteq> f y" using assms(1) by auto
  then have "f x \<noteq> a \<or> f y \<noteq> a" by auto
  then show ?thesis unfolding xs by auto
qed

lemma removePanel_invariant:
  assumes "panelsInvariant s"
  shows "panelsInvariant (removePanel pid s)"
proof (cases "length (panels s) \<le> 1")
  case True
  then show ?thesis using assms by (simp add: removePanel_def)
next
  case False
  then have p: "panels (removePanel pid s) = filter (\<lambda>p. panelId p \<noteq> pid) (panels s)"
    and c: "panelIdCounter (removePanel pid s) = panelIdCounter s"
    by (simp_all add: removePanel_def Let_def)
  have d: "distinct (map panelId (panels s))" using assms by (simp add: panelsInvariant_def)
  have ne: "filter (\<lambda>p. panelId p \<noteq> pid) (panels s) \<noteq> []"
    by (rule two_distinct_survive [OF d]) (use False in simp)
  have "handedOut (map panelId (filter (\<lambda>p. panelId p \<noteq> pid) (panels s))) (panelIdCounter s)"
    using assms unfolding panelsInvariant_def by (elim conjE handedOut_subset) auto
  then show ?thesis
    unfolding panelsInvariant_def p c using ne d by (simp add: distinct_map_filter)
qed


lemma setActivePanel_invariant:
  assumes "panelsInvariant s"
  shows "panelsInvariant (setActivePanel pid s)"
  by (rule invariant_same_ids [OF assms]) (simp_all add: setActivePanel_def)

lemma setPanelModel_invariant:
  assumes "panelsInvariant s"
  shows "panelsInvariant (setPanelModel pid model s)"
  by (rule invariant_same_ids [OF assms])
    (simp_all add: setPanelModel_def Let_def updatePanel_ids)

lemma setPanelExperiment_invariant:
  assumes "panelsInvariant s"
  shows "panelsInvariant (setPanelExperiment pid experiment s)"
  by (rule invariant_same_ids [OF assms])
    (simp_all add: setPanelExperiment_def Let_def updatePanel_ids)

lemma setSelectedVariable_invariant:
  assumes "panelsInvariant s"
  shows "panelsInvariant (setSelectedVariable variable s)"
  by (rule invariant_same_ids [OF assms]) (simp_all add: setSelectedVariable_def)

lemma setTimeIndex_invariant:
  assumes "panelsInvariant s"
  shows "panelsInvariant (setTimeIndex index s)"
proof (rule invariant_same_ids [OF assms])
  show "map panelId (panels (setTimeIndex index s)) = map panelId (panels s)"
    unfolding setTimeIndex_def Let_def
    by (auto split: option.splits list.splits intro!: map_ids)
  show "panelIdCounter (setTimeIndex index s) = panelIdCounter s"
    by (simp add: setTimeIndex_def Let_def split: option.splits)
qed

lemma setColormap_invariant:
  assumes "panelsInvariant s"
  shows "panelsInvariant (setColormap cm s)"
  by (rule invariant_same_ids [OF assms]) (simp_all add: setColormap_def)

lemma setColorRange_invariant:
  assumes "panelsInvariant s"
  shows "panelsInvariant (setColorRange lo hi s)"
  by (rule invariant_same_ids [OF assms]) (simp_all add: setColorRange_def)

lemma setAutoRange_invariant:
  assumes "panelsInvariant s"
  shows "panelsInvariant (setAutoRange auto s)"
  by (rule invariant_same_ids [OF assms]) (simp_all add: setAutoRange_def)

lemma setViewState_invariant:
  assumes "panelsInvariant s"
  shows "panelsInvariant (setViewState v s)"
  by (rule invariant_same_ids [OF assms]) (simp_all add: setViewState_def)

lemma setHoverGridPosition_invariant:
  assumes "panelsInvariant s"
  shows "panelsInvariant (setHoverGridPosition position hp s)"
  by (rule invariant_same_ids [OF assms]) (simp_all add: setHoverGridPosition_def)

lemma loadPanelData_begin_invariant:
  assumes "panelsInvariant s"
  shows "panelsInvariant (loadPanelData_begin pid s)"
  by (rule invariant_same_ids [OF assms])
    (simp_all add: loadPanelData_begin_def updatePanel_ids)

lemma loadPanelData_failed_ids:
  "map panelId (panels (loadPanelData_failed pid variable panel errMsg s)) = map panelId (panels s)"
  "panelIdCounter (loadPanelData_failed pid variable panel errMsg s) = panelIdCounter s"
  by (simp_all add: loadPanelData_failed_def Let_def updatePanel_ids)

lemma loadPanelData_outOfRange_ids:
  "map panelId (panels (loadPanelData_outOfRange pid maxTime groupMeta labels s)) = map panelId (panels s)"
  "panelIdCounter (loadPanelData_outOfRange pid maxTime groupMeta labels s) = panelIdCounter s"
  by (simp_all add: loadPanelData_outOfRange_def updatePanel_ids)

lemma loadPanelData_loaded_ids:
  "map panelId (panels (loadPanelData_loaded pid data shape2 maxTime groupMeta labels idx fill varMeta s))
     = map panelId (panels s)"
  "panelIdCounter (loadPanelData_loaded pid data shape2 maxTime groupMeta labels idx fill varMeta s)
     = panelIdCounter s"
  by (simp_all add: loadPanelData_loaded_def Let_def updatePanel_ids split: option.splits prod.splits)

lemma loadPanelData_settle_invariant:
  assumes "panelsInvariant s"
  shows "panelsInvariant (loadPanelData_settle pid s0 opened meta labels fetch newFill varMeta s)"
  by (rule invariant_same_ids [OF assms])
    (simp_all add: loadPanelData_settle_def Let_def loadPanelData_failed_ids
      loadPanelData_outOfRange_ids loadPanelData_loaded_ids split: option.splits sum.splits)

lemma loadAllPanels_mark_invariant:
  assumes "panelsInvariant s"
  shows "panelsInvariant (loadAllPanels_mark s)"
  by (rule invariant_same_ids [OF assms]) (simp_all add: loadAllPanels_mark_def map_ids)

lemma step_invariant:
  assumes "step s s'" "panelsInvariant s"
  shows "panelsInvariant s'"
  using assms
proof (cases rule: step.cases)
  case (step_initialize_begin cfg)
  then show ?thesis using assms(2) by (simp add: initialize_begin_invariant)
next
  case (step_initialize_failed msg)
  then show ?thesis using assms(2) by (simp add: initialize_failed_invariant)
next
  case (step_initialize_aborted k msg)
  then show ?thesis using assms(2) by (simp add: initialize_aborted_invariant)
next
  case (step_initialize_complete cfg st grid fill msg)
  then show ?thesis using assms(2) by (simp add: initialize_complete_invariant)
next
  case (step_setDataView_begin view)
  then show ?thesis using assms(2) by (simp add: setDataView_begin_invariant)
next
  case (step_setDataView_complete view cfg st grid fill msg)
  then show ?thesis using assms(2) by (simp add: setDataView_complete_invariant)
next
  case step_addPanel
  then show ?thesis using assms(2) by (simp add: addPanel_invariant)
next
  case (step_removePanel pid)
  then show ?thesis using assms(2) by (simp add: removePanel_invariant)
next
  case (step_setActivePanel pid)
  then show ?thesis using assms(2) by (simp add: setActivePanel_invariant)
next
  case (step_setPanelModel pid model)
  then show ?thesis using assms(2) by (simp add: setPanelModel_invariant)
next
  case (step_setPanelExperiment pid expt)
  then show ?thesis using assms(2) by (simp add: setPanelExperiment_invariant)
next
  case (step_setSelectedVariable variable)
  then show ?thesis using assms(2) by (simp add: setSelectedVariable_invariant)
next
  case (step_setTimeIndex index)
  then show ?thesis using assms(2) by (simp add: setTimeIndex_invariant)
next
  case (step_setColormap cm)
  then show ?thesis using assms(2) by (simp add: setColormap_invariant)
next
  case (step_setColorRange lo hi)
  then show ?thesis using assms(2) by (simp add: setColorRange_invariant)
next
  case (step_setAutoRange auto)
  then show ?thesis using assms(2) by (simp add: setAutoRange_invariant)
next
  case (step_setViewState v)
  then show ?thesis using assms(2) by (simp add: setViewState_invariant)
next
  case (step_setHoverGridPosition position hp)
  then show ?thesis using assms(2) by (simp add: setHoverGridPosition_invariant)
next
  case (step_loadPanelData_begin pid)
  then show ?thesis using assms(2) by (simp add: loadPanelData_begin_invariant)
next
  case (step_loadPanelData_settle pid s0 opened meta labels fetch newFill varMeta)
  then show ?thesis using assms(2) by (simp add: loadPanelData_settle_invariant)
next
  case step_loadAllPanels_mark
  then show ?thesis using assms(2) by (simp add: loadAllPanels_mark_invariant)
qed

lemma reachable_invariant: "reachable s \<Longrightarrow> panelsInvariant s"
  by (induction rule: reachable.induct) (auto intro: initialState_invariant step_invariant)

subsection \<open>What a completed load stores\<close>


lemma updatePanel_member:
  assumes "p \<in> set (updatePanel pid f ps)" "panelId p = pid" "\<And>q. panelId (f q) = panelId q"
  shows "\<exists>q \<in> set ps. p = f q"
  using assms by (auto simp: updatePanel_def split: if_splits)

lemma loaded_resolved:
  assumes "p \<in> set (panels (loadPanelData_loaded pid data shape2 maxTime groupMeta labels idx
                fill varMeta s))"
    and "panelId p = pid"
  shows "resolvedTimeIndex p = Some idx"
proof -
  let ?f = "\<lambda>p. p\<lparr>currentData := Some data, dataShape := Some shape2,
                   maxTimeIndex := maxTime, isLoading := False, groupMetadata := groupMeta,
                   timeLabels := labels, resolvedTimeIndex := Some idx,
                   allNaN := dataAllNaN data\<rparr>"
  have "panels (loadPanelData_loaded pid data shape2 maxTime groupMeta labels idx fill varMeta s)
          = updatePanel pid ?f (panels s)"
    by (simp add: loadPanelData_loaded_def Let_def split: option.splits prod.splits)
  with assms(1) have "p \<in> set (updatePanel pid ?f (panels s))" by simp
  from updatePanel_member [OF this assms(2)] obtain q where "p = ?f q" by auto
  then show ?thesis by simp
qed

lemma settle_index_fallback:
  assumes "findPanel pid (panels s0) = Some panel"
    and "1 < nt"
    and "targetYear s0 = Some t"
    and "fetch (minIndex (timeIndex s0) (int nt - 1)) = Inr data"
    and "p \<in> set (panels (loadPanelData_settle pid s0 (Inr [nt, h, w]) meta None fetch fill
                varMeta s))"
    and "panelId p = pid"
  shows "resolvedTimeIndex p = Some (minIndex (timeIndex s0) (int nt - 1))"
proof -
  have r: "resolveTimeIndex (timeIndex s0) (int nt - 1) (Some t) None
             = Some (minIndex (timeIndex s0) (int nt - 1))"
    using assms(2) by (simp add: resolveTimeIndex_def)
  have "\<exists>gm. loadPanelData_settle pid s0 (Inr [nt, h, w]) meta None fetch fill varMeta s
        = loadPanelData_loaded pid data [h, w] (int nt - 1) gm None
            (minIndex (timeIndex s0) (int nt - 1)) fill varMeta s"
    using assms(1,3,4) r by (auto simp: loadPanelData_settle_def Let_def)
  then show ?thesis using assms(5,6) loaded_resolved by metis
qed

subsection \<open>Who writes the colour range\<close>







section \<open>The state machine: the claims\<close>

lemma percentile_indices_3: "p5Index 3 = 0" "p95Index 3 = 2"
proof -
  have "\<lfloor>(3::rat) * (5 / 100)\<rfloor> = 0" by (rule floor_unique) simp_all
  then show "p5Index 3 = 0" by (simp add: p5Index_def)
  have "\<lfloor>(3::rat) * (95 / 100)\<rfloor> = 2" by (rule floor_unique) simp_all
  then show "p95Index 3 = 2" by (simp add: p95Index_def)
qed

lemma percentile_indices_Suc [simp]:
  "p5Index (Suc (Suc (Suc 0))) = 0" "p95Index (Suc (Suc (Suc 0))) = 2"
  using percentile_indices_3 by (simp_all add: numeral_3_eq_3)

lemma sort_three: "sort [- 5, 0, 5 :: rat] = [- 5, 0, 5]"
  by simp

text \<open>
  Claim C5, as amended. On the values \<open>-5, 0, 5\<close> with no fill value the estimator
  filters nothing; the index of the 5th percentile is \<open>floor (3 * 0.05) = 0\<close> and the
  index of the 95th percentile is \<open>floor (3 * 0.95) = 2\<close>; the two percentiles are
  \<open>-5\<close> and \<open>5\<close>, the degenerate branch is not taken, and the range is
  \<open>vmin = -5\<close>, \<open>vmax = 5\<close>.
\<close>

theorem computeAutoRange_three_values:
  "fillValue s = None \<and> panels s = [p] \<and> currentData p = Some [Num (- 5), Num 0, Num 5]
   \<longrightarrow> allValidValues s = [- 5, 0, 5]
     \<and> p5Index (length (allValidValues s)) = 0
     \<and> p95Index (length (allValidValues s)) = 2
     \<and> sort (allValidValues s) ! 0 = - 5
     \<and> sort (allValidValues s) ! 2 = 5
     \<and> computeAutoRange s = s\<lparr>vmin := Num (- 5), vmax := Num 5\<rparr>"
proof
  assume a: "fillValue s = None \<and> panels s = [p] \<and> currentData p = Some [Num (- 5), Num 0, Num 5]"
  then have v: "allValidValues s = [- 5, 0, 5]"
    by (simp add: allValidValues_def nearFill_def)
  have "computeAutoRange s = s\<lparr>vmin := Num (- 5), vmax := Num 5\<rparr>"
    unfolding computeAutoRange_def v Let_def
    by (simp add: percentile_indices_3)
  then show "allValidValues s = [- 5, 0, 5]
     \<and> p5Index (length (allValidValues s)) = 0
     \<and> p95Index (length (allValidValues s)) = 2
     \<and> sort (allValidValues s) ! 0 = - 5
     \<and> sort (allValidValues s) ! 2 = 5
     \<and> computeAutoRange s = s\<lparr>vmin := Num (- 5), vmax := Num 5\<rparr>"
    unfolding v by (simp add: percentile_indices_3)
qed

lemma threeValues_shape:
  "fillValue threeValues = None
   \<and> panels threeValues = [(fst (createEmptyPanel 0))\<lparr>currentData := Some [Num (- 5), Num 0, Num 5]\<rparr>]
   \<and> currentData ((fst (createEmptyPanel 0))\<lparr>currentData := Some [Num (- 5), Num 0, Num 5]\<rparr>)
        = Some [Num (- 5), Num 0, Num 5]"
  by (simp add: threeValues_def initialState_def createEmptyPanel_def)

theorem computeAutoRange_three_values_witness:
  "vmin (computeAutoRange threeValues) = Num (- 5)
   \<and> vmax (computeAutoRange threeValues) = Num 5
   \<and> p95Index (length (allValidValues threeValues)) = 2"
  using computeAutoRange_three_values [of threeValues
      "(fst (createEmptyPanel 0))\<lparr>currentData := Some [Num (- 5), Num 0, Num 5]\<rparr>"]
    threeValues_shape
  by simp

text \<open>
  Claim C5 as stated fails: the index of the 95th percentile of three values is 2, not
  0, and the range is \<open>-5\<close> to \<open>5\<close>, not \<open>-5.5\<close> to \<open>-4.5\<close>.
\<close>

theorem computeAutoRange_degenerate_counterexample:
  "p95Index 3 = 2
   \<and> vmin (computeAutoRange threeValues) = Num (- 5)
   \<and> vmax (computeAutoRange threeValues) = Num 5
   \<and> \<not> (p95Index 3 = 0
          \<and> vmin (computeAutoRange threeValues) = Num (- 11 / 2)
          \<and> vmax (computeAutoRange threeValues) = Num (- 9 / 2))"
proof -
  have v: "allValidValues threeValues = [- 5, 0, 5]"
    using threeValues_shape by (simp add: allValidValues_def nearFill_def)
  have "computeAutoRange threeValues = threeValues\<lparr>vmin := Num (- 5), vmax := Num 5\<rparr>"
    unfolding computeAutoRange_def v Let_def by (simp add: percentile_indices_3)
  then show ?thesis by (simp add: percentile_indices_3)
qed

text \<open>
  Claim C7, as amended. In a load where a target year exists, the labels were not
  decoded and the array has a time axis (\<open>maxTime > 0\<close>), the resolved time index is
  the lesser of the slider position and \<open>maxTime\<close>. It never exceeds \<open>maxTime\<close>, and
  for a slider position that is not negative it is the position clamped into the valid
  range from 0 to \<open>maxTime\<close>.
\<close>

theorem resolveTimeIndex_index_fallback:
  "0 < maxTime \<Longrightarrow>
     resolveTimeIndex (Some i) maxTime (Some t) None = Some (Some (min i maxTime))
     \<and> min i maxTime \<le> maxTime
     \<and> (0 \<le> i \<longrightarrow> 0 \<le> min i maxTime \<and> min i maxTime = max 0 (min i maxTime))"
  by (simp add: resolveTimeIndex_def minIndex_def)

theorem resolveTimeIndex_index_fallback_witness:
  "(0::int) < 5 \<and> resolveTimeIndex (Some 7) 5 (Some (Some 2020)) None = Some (Some 5)
   \<and> resolveTimeIndex (Some 3) 5 (Some (Some 2020)) None = Some (Some 3)"
  using resolveTimeIndex_index_fallback [of 5 7 "Some 2020"]
    resolveTimeIndex_index_fallback [of 5 3 "Some 2020"] by simp

text \<open>
  Claim C7 as stated fails for a negative slider position: at position \<open>-3\<close> with
  \<open>maxTime = 5\<close> the resolved index is \<open>-3\<close>, which is not the clamped position 0
  and not an index of the time axis.
\<close>

theorem resolveTimeIndex_negative_counterexample:
  "resolveTimeIndex (Some (- 3)) 5 (Some (Some 2020)) None = Some (Some (- 3))
   \<and> resolveTimeIndex (Some (- 3)) 5 (Some (Some 2020)) None
        \<noteq> Some (Some (max 0 (min (- 3) 5)))
   \<and> \<not> (0 \<le> (- 3 :: int))"
  by (simp add: resolveTimeIndex_def minIndex_def)




text \<open>
  Claim C9. Every state that the state machine can reach from the initial state has
  at least one panel; \<^verbatim>\<open>removePanel\<close> leaves a state with one panel unchanged; and when
  no panel of the state is valid for the hierarchy that \<^verbatim>\<open>setDataView\<close> discovered, its
  last update leaves exactly one fresh empty panel.
\<close>

theorem panels_never_empty:
  "(reachable s \<longrightarrow> panels s \<noteq> [] \<and> 1 \<le> length (panels s))
   \<and> (length (panels s) = 1 \<longrightarrow> removePanel pid s = s)
   \<and> (discoverHierarchy st
          (orElse (case cfg of None \<Rightarrow> None | Some c \<Rightarrow> embed_group_path c) (Some view))
          = Inr (ms, exps, vars, depth)
        \<and> filter (panelValid ms exps) (panels s) = []
      \<longrightarrow> panels (setDataView_complete view cfg st grid fill msg s)
            = [fst (createEmptyPanel (panelIdCounter s))])"
proof (intro conjI impI)
  assume "reachable s"
  then have "panels s \<noteq> []" using reachable_invariant [of s] by (simp add: panelsInvariant_def)
  then show "panels s \<noteq> []" "1 \<le> length (panels s)"
    by (simp_all add: Suc_le_eq)
next
  assume "length (panels s) = 1"
  then show "removePanel pid s = s" by (simp add: removePanel_def)
next
  assume "discoverHierarchy st
          (orElse (case cfg of None \<Rightarrow> None | Some c \<Rightarrow> embed_group_path c) (Some view))
          = Inr (ms, exps, vars, depth)
        \<and> filter (panelValid ms exps) (panels s) = []"
  then show "panels (setDataView_complete view cfg st grid fill msg s)
            = [fst (createEmptyPanel (panelIdCounter s))]"
    by (simp add: setDataView_complete_def Let_def createEmptyPanel_def)
qed

lemma panelName_1: "panelName 1 = panelName (Suc 0)"
  by simp

theorem panels_never_empty_witness:
  "reachable (addPanel initialState)
   \<and> panels (addPanel initialState) \<noteq> []
   \<and> removePanel (panelName 1) initialState = initialState
   \<and> map panelId (panels (setDataView_complete ''combined'' None storeModelExp DEFAULT_GRID
        None [] (setPanelModel (panelName 1) ''elsewhere'' initialState))) = [panelName 2]"
proof -
  have r: "reachable (addPanel initialState)"
    by (rule reachable_step [OF reachable_initial step_addPanel])
  have l: "length (panels initialState) = 1"
    by (simp add: initialState_def createEmptyPanel_def)
  let ?s = "setPanelModel (panelName 1) ''elsewhere'' initialState"
  have d: "discoverHierarchy storeModelExp
             (orElse (case None of None \<Rightarrow> None | Some c \<Rightarrow> embed_group_path c) (Some ''combined''))
           = Inr ([''modelX''], [''modelX'' \<mapsto> [''expY'']], [''var1''], 2)"
    using storeModelExp_discovered by (simp add: orElse_def truthy_def)
  have f: "filter (panelValid [''modelX''] [''modelX'' \<mapsto> [''expY'']]) (panels ?s) = []"
    by (simp add: setPanelModel_def clearHover_def updatePanel_def initialState_def
        createEmptyPanel_def panelValid_def Let_def)
  have c: "panelIdCounter ?s = 1"
    by (simp add: setPanelModel_def initialState_def createEmptyPanel_def Let_def)
  have p3: "panels (setDataView_complete ''combined'' None storeModelExp DEFAULT_GRID None [] ?s)
              = [fst (createEmptyPanel (panelIdCounter ?s))]"
    using panels_never_empty [of ?s undefined storeModelExp None "''combined''"
        "[''modelX'']" "[''modelX'' \<mapsto> [''expY'']]" "[''var1'']" 2 DEFAULT_GRID None "[]"] d f
    by blast
  have p1: "panels (addPanel initialState) \<noteq> []"
    using panels_never_empty [of "addPanel initialState"] r by blast
  have p2: "removePanel (panelName 1) initialState = initialState"
    using panels_never_empty [of initialState "panelName 1"] l by blast
  show ?thesis
    using r p1 p2 p3 unfolding c by (simp add: createEmptyPanel_def numeral_2_eq_2)
qed


end
